theory Spec2Isabelle
  imports Main "HOL-Library.Sublist"
begin

section \<open>The formatter (src/formatter.js)\<close>

text \<open>
  A text is a list of code units. A \<open>TextChange\<close> is what the TypeScript language service
  returns from \<open>getFormattingEditsForDocument\<close>: a span (\<open>span.start\<close>, \<open>span.length\<close>)
  of the document and the text that replaces it. JavaScript numbers that hold offsets
  are modelled as unbounded integers.
\<close>

record TextChange =
  span_start :: int
  span_length :: int
  newText :: string

text \<open>
  \<open>String.prototype.slice(b, e)\<close>: a negative argument counts from the end of the string,
  every argument is clamped to \<open>[0, length]\<close>, and an empty string is returned when the
  clamped end is not after the clamped start. It never throws.
\<close>

definition slice :: "string \<Rightarrow> int \<Rightarrow> int \<Rightarrow> string" where
  "slice s b e =
     (let n = int (length s);
          from = (if b < 0 then max (n + b) 0 else min b n);
          to = (if e < 0 then max (n + e) 0 else min e n)
      in take (nat (to - from)) (drop (nat from) s))"

text \<open>\<open>s.slice(b)\<close>: the end defaults to the length of the string.\<close>

definition slice_from :: "string \<Rightarrow> int \<Rightarrow> string" where
  "slice_from s b = slice s b (int (length s))"

text \<open>
  The body of the loop of \<open>format\<close>:
  \<open>result = result.slice(0, start) + e.newText + result.slice(end)\<close>.
\<close>

definition apply_edit :: "string \<Rightarrow> TextChange \<Rightarrow> string" where
  "apply_edit result e =
     (let start = span_start e;
          end = span_start e + span_length e
      in slice result 0 start @ newText e @ slice_from result end)"

text \<open>
  \<open>for (let i = edits.length - 1; i >= 0; i--)\<close>: the counter of the model is \<open>i + 1\<close>, so
  that the loop stops at \<open>0\<close>; the edit read is \<open>edits[i]\<close> with \<open>i < edits.length\<close>.
\<close>

fun format_loop :: "TextChange list \<Rightarrow> nat \<Rightarrow> string \<Rightarrow> string" where
  "format_loop edits 0 result = result"
| "format_loop edits (Suc i) result = format_loop edits i (apply_edit result (edits ! i))"

text \<open>
  What \<open>format\<close> does with the edits it got from the language service; \<open>None\<close> is a
  falsy answer (\<open>undefined\<close> or \<open>null\<close>).
\<close>

definition format_edits :: "string \<Rightarrow> TextChange list option \<Rightarrow> string" where
  "format_edits text edits =
     (case edits of
        None \<Rightarrow> text
      | Some es \<Rightarrow> if length es = 0 then text else format_loop es (length es) text)"

text \<open>
  The reference the specification compares with: the simultaneous application of the
  edits to the original buffer by direct index slicing. The edits are put in ascending
  order of start; \<open>splice_edits\<close> then copies the original up to each edit, puts the
  replacement, and resumes after the replaced range.
\<close>

fun splice_edits :: "string \<Rightarrow> nat \<Rightarrow> TextChange list \<Rightarrow> string" where
  "splice_edits original pos [] = drop pos original"
| "splice_edits original pos (e # es) =
     take (nat (span_start e) - pos) (drop pos original) @ newText e @
     splice_edits original (nat (span_start e + span_length e)) es"

definition simultaneous :: "string \<Rightarrow> TextChange list \<Rightarrow> string" where
  "simultaneous original edits = splice_edits original 0 (sort_key span_start edits)"

text \<open>The range of an edit lies within the buffer.\<close>

definition in_bounds :: "string \<Rightarrow> TextChange \<Rightarrow> bool" where
  "in_bounds original e \<longleftrightarrow>
     0 \<le> span_start e \<and> 0 \<le> span_length e \<and>
     span_start e + span_length e \<le> int (length original)"

text \<open>Two ranges \<open>[start, start + length)\<close> share no position.\<close>

definition disjoint_spans :: "TextChange \<Rightarrow> TextChange \<Rightarrow> bool" where
  "disjoint_spans a b \<longleftrightarrow>
     span_start a + span_length a \<le> span_start b \<or>
     span_start b + span_length b \<le> span_start a"

fun non_overlapping :: "TextChange list \<Rightarrow> bool" where
  "non_overlapping [] = True"
| "non_overlapping (e # es) = (list_all (disjoint_spans e) es \<and> non_overlapping es)"

text \<open>
  The order in which the language service delivers the edits of one document: each edit
  ends at or before the start of every later one.
\<close>

fun ascending :: "TextChange list \<Rightarrow> bool" where
  "ascending [] = True"
| "ascending (e # es) =
     (list_all (\<lambda>b. span_start e + span_length e \<le> span_start b) es \<and> ascending es)"

section \<open>The host: Node's file system, the language service, minimatch\<close>

text \<open>
  A thrown JavaScript \<open>Error\<close>, with its message. Every function of the program that can
  throw returns a sum, \<open>Inl\<close> the error.
\<close>

datatype error = Error (message: string)

text \<open>
  The files the apply phase opens, reads and overwrites: a store from absolute paths to
  files. A path with no file, or a file that may not be read, cannot be opened. The
  content of a file is taken to be the code units that \<open>readFileSync(path, "utf8")\<close>
  yields (UTF-8 decoding is not modelled), so the probe and the formatter see the same list.
\<close>

record fnode =
  bytes :: string
  readable :: bool
  writable :: bool

type_synonym disk = "string \<rightharpoonup> fnode"

definition readFileSync :: "disk \<Rightarrow> string \<Rightarrow> error + string" where
  "readFileSync d p =
     (case d p of
        None \<Rightarrow> Inl (Error (''ENOENT: no such file or directory, open '' @ [CHR 0x27] @ p @ [CHR 0x27]))
      | Some n \<Rightarrow>
          if readable n then Inr (bytes n)
          else Inl (Error (''EACCES: permission denied, open '' @ [CHR 0x27] @ p @ [CHR 0x27])))"

text \<open>
  \<open>writeFileSync\<close> replaces the whole content. The worker only writes a path it has just
  read, so the first case is not reached from the program.
\<close>

definition writeFileSync :: "disk \<Rightarrow> string \<Rightarrow> string \<Rightarrow> error + disk" where
  "writeFileSync d p text =
     (case d p of
        None \<Rightarrow> Inr (d(p \<mapsto> \<lparr>bytes = text, readable = True, writable = True\<rparr>))
      | Some n \<Rightarrow>
          if writable n then Inr (d(p \<mapsto> n\<lparr>bytes := text\<rparr>))
          else Inl (Error (''EACCES: permission denied, open '' @ [CHR 0x27] @ p @ [CHR 0x27])))"

text \<open>
  \<open>getFormattingEditsForDocument\<close> of a language service created for one file and its
  text: it throws, or answers with the edits (\<open>None\<close> for a falsy answer).
\<close>

type_synonym language_service = "string \<Rightarrow> string \<Rightarrow> error + TextChange list option"

text \<open>
  \<open>format\<close> of \<open>createSingleFileFormatter(fileName, initialText)\<close>: the edits of the
  language service, then the loop over them.
\<close>

definition format :: "language_service \<Rightarrow> string \<Rightarrow> string \<Rightarrow> error + string" where
  "format getEdits fileName text =
     (case getEdits fileName text of
        Inl e \<Rightarrow> Inl e
      | Inr edits \<Rightarrow> Inr (format_edits text edits))"

text \<open>
  \<open>formatFile\<close>: the paths it is called with are absolute, so \<open>path.resolve\<close> leaves them
  as they are. It returns \<open>{ formattedText, changed }\<close>.
\<close>

definition formatFile :: "language_service \<Rightarrow> disk \<Rightarrow> string \<Rightarrow> error + (string \<times> bool)" where
  "formatFile getEdits d filePath =
     (case readFileSync d filePath of
        Inl e \<Rightarrow> Inl e
      | Inr originalText \<Rightarrow>
          (case format getEdits filePath originalText of
             Inl e \<Rightarrow> Inl e
           | Inr formattedText \<Rightarrow> Inr (formattedText, formattedText \<noteq> originalText)))"

section \<open>The command line tool (bin/format-ts.js)\<close>

subsection \<open>Console\<close>

datatype line = ConsoleLog string | ConsoleError string | ConsoleWarn string

fun digit :: "nat \<Rightarrow> char" where
  "digit n = char_of (48 + n)"

fun show_nat :: "nat \<Rightarrow> string" where
  "show_nat n = (if n < 10 then [digit n] else show_nat (n div 10) @ [digit (n mod 10)])"

definition printHelp :: "line list" where
  "printHelp =
     [ConsoleLog (''Usage: format-ts [options] <dir|file>'' @ [CHR 0x0A]),
      ConsoleLog ''Options:'',
      ConsoleLog ''  --dir <path>         Root directory or file to format (alternative to positional <dir|file>)'',
      ConsoleLog (''  --include <glob>     Include glob (default: '' @ [CHR 0x22] @ ''**/*.{ts,tsx,js}'' @ [CHR 0x22] @ '')''),
      ConsoleLog ''  --exclude <glob>     Exclude glob(s), comma-separated (default: node_modules,dist,build,coverage,.git)'',
      ConsoleLog ''  --concurrency <n>    Max concurrent files to process (default: 8)'',
      ConsoleLog ''  --dry                Dry-run: do not write files, just report changes'',
      ConsoleLog ''  --check              Check mode: exit with non-zero code if any file would be changed'',
      ConsoleLog ''  --silent             Reduce logging output'',
      ConsoleLog ''  -h, --help           Show this help'']"

subsection \<open>parseArgs\<close>

record options =
  dir :: "string option"
  includeGlob :: string
  exclude :: "string list"
  concurrency :: nat
  dry :: bool
  check :: bool
  silent :: bool

definition default_options :: options where
  "default_options =
     \<lparr>dir = None, includeGlob = ''**/*.{ts,tsx,js}'',
      exclude = [''node_modules'', ''dist'', ''build'', ''coverage'', ''.git''],
      concurrency = 8, dry = False, check = False, silent = False\<rparr>"

text \<open>\<open>next.split(",")\<close>: the pieces between the commas; one empty piece for the empty string.\<close>

fun split_comma :: "string \<Rightarrow> string list" where
  "split_comma [] = [[]]"
| "split_comma (c # cs) =
     (if c = CHR '','' then [] # split_comma cs
      else (case split_comma cs of [] \<Rightarrow> [[c]] | w # ws \<Rightarrow> (c # w) # ws))"

text \<open>
  \<open>s.trim()\<close>: the white space and line terminators of JavaScript among the code units
  below 256 (tab, line feed, vertical tab, form feed, carriage return, space, no-break
  space).
\<close>

definition is_space :: "char \<Rightarrow> bool" where
  "is_space c \<longleftrightarrow>
     c \<in> set [CHR '' '', CHR 0x09, CHR 0x0A, CHR 0x0B, CHR 0x0C, CHR 0x0D, CHR 0xA0]"

definition trim :: "string \<Rightarrow> string" where
  "trim s = rev (dropWhile is_space (rev (dropWhile is_space s)))"

text \<open>
  The loop of \<open>parseArgs\<close> over \<open>args\<close>; an option that takes a value reads \<open>args[++i]\<close>,
  which is \<open>undefined\<close> past the end, and \<open>!next\<close> also holds for the empty string.
  \<open>toInteger\<close> stands for \<open>Number(next)\<close> under \<open>Number.isInteger\<close>: the integer the
  string denotes, or \<open>None\<close> when \<open>Number(next)\<close> is not an integer. A positional argument is
  taken while \<open>!positionalPath\<close> holds, which it also does for an empty one.
\<close>

fun parse_loop ::
  "(string \<Rightarrow> int option) \<Rightarrow> string list \<Rightarrow> options \<Rightarrow> string option \<Rightarrow>
   error + (options \<times> string option \<times> bool)" where
  "parse_loop toInteger [] opts positionalPath = Inr (opts, positionalPath, False)"
| "parse_loop toInteger (arg # rest) opts positionalPath =
     (if arg = ''-h'' \<or> arg = ''--help'' then Inr (opts, positionalPath, True)
      else if arg = ''--dir'' then
        (case rest of
           [] \<Rightarrow> Inl (Error ''--dir requires a value'')
         | next # rest' \<Rightarrow>
             if next = [] then Inl (Error ''--dir requires a value'')
             else parse_loop toInteger rest' (opts\<lparr>dir := Some next\<rparr>) positionalPath)
      else if arg = ''--include'' then
        (case rest of
           [] \<Rightarrow> Inl (Error ''--include requires a value'')
         | next # rest' \<Rightarrow>
             if next = [] then Inl (Error ''--include requires a value'')
             else parse_loop toInteger rest' (opts\<lparr>includeGlob := next\<rparr>) positionalPath)
      else if arg = ''--exclude'' then
        (case rest of
           [] \<Rightarrow> Inl (Error ''--exclude requires a value'')
         | next # rest' \<Rightarrow>
             if next = [] then Inl (Error ''--exclude requires a value'')
             else parse_loop toInteger rest'
                    (opts\<lparr>exclude := filter (\<lambda>s. s \<noteq> []) (map trim (split_comma next))\<rparr>)
                    positionalPath)
      else if arg = ''--concurrency'' then
        (case rest of
           [] \<Rightarrow> Inl (Error ''--concurrency requires a value'')
         | next # rest' \<Rightarrow>
             if next = [] then Inl (Error ''--concurrency requires a value'')
             else (case toInteger next of
                     None \<Rightarrow> Inl (Error ''--concurrency must be a positive integer'')
                   | Some n \<Rightarrow>
                       if n \<le> 0 then Inl (Error ''--concurrency must be a positive integer'')
                       else parse_loop toInteger rest' (opts\<lparr>concurrency := nat n\<rparr>) positionalPath))
      else if arg = ''--dry'' then parse_loop toInteger rest (opts\<lparr>dry := True\<rparr>) positionalPath
      else if arg = ''--check'' then parse_loop toInteger rest (opts\<lparr>check := True\<rparr>) positionalPath
      else if arg = ''--silent'' then parse_loop toInteger rest (opts\<lparr>silent := True\<rparr>) positionalPath
      else if take 1 arg = ''-'' then Inl (Error (''Unknown option: '' @ arg))
      else (case positionalPath of
              None \<Rightarrow> parse_loop toInteger rest opts (Some arg)
            | Some p \<Rightarrow>
                if p = [] then parse_loop toInteger rest opts (Some arg)
                else Inl (Error (''Unexpected positional argument: '' @ arg))))"

text \<open>\<open>parseArgs(argv)\<close>: \<open>args = argv.slice(2)\<close>.\<close>

definition parseArgs ::
  "(string \<Rightarrow> int option) \<Rightarrow> string list \<Rightarrow> error + (options \<times> string option \<times> bool)" where
  "parseArgs toInteger argv = parse_loop toInteger (drop 2 argv) default_options None"

subsection \<open>isTextFile\<close>

text \<open>
  The probe opens the file, reads up to 1024 bytes and looks for a zero byte; the
  \<open>catch\<close> answers \<open>false\<close> for a file that cannot be opened or read.
\<close>

definition isTextFile :: "disk \<Rightarrow> string \<Rightarrow> bool" where
  "isTextFile d filePath =
     (case d filePath of
        None \<Rightarrow> False
      | Some n \<Rightarrow>
          if readable n then list_all (\<lambda>b. b \<noteq> CHR 0x00) (take 1024 (bytes n))
          else False)"

subsection \<open>collectFiles\<close>

text \<open>
  What \<open>readdirSync(dir, { withFileTypes: true })\<close> reports: the entries of a directory in
  the order of the listing, each a regular file, a directory (with its own listing, \<open>None\<close>
  when reading it throws) or something else (a link, a socket).
\<close>

datatype dirent = File string | Directory string "dirent list option" | Other string

fun name :: "dirent \<Rightarrow> string" where
  "name (File n) = n"
| "name (Directory n sub) = n"
| "name (Other n) = n"

fun isDirectory :: "dirent \<Rightarrow> bool" where
  "isDirectory (Directory n sub) = True"
| "isDirectory e = False"

fun isFile :: "dirent \<Rightarrow> bool" where
  "isFile (File n) = True"
| "isFile e = False"

text \<open>
  \<open>path.join(dir, name)\<close> for a directory path without a trailing separator and an entry
  name, and \<open>path.relative(rootDir, fullPath).split(path.sep).join("/")\<close> for a path below
  the root: the part after the root and its separator.
\<close>

definition path_join :: "string \<Rightarrow> string \<Rightarrow> string" where
  "path_join d n = d @ ''/'' @ n"

definition path_relative :: "string \<Rightarrow> string \<Rightarrow> string" where
  "path_relative rootDir fullPath =
     (if prefix (rootDir @ ''/'') fullPath then drop (length rootDir + 1) fullPath else fullPath)"

text \<open>\<open>pattern.replace(/\\+/g, "/")\<close>: every run of backslashes becomes one slash.\<close>

function unbackslash :: "string \<Rightarrow> string" where
  "unbackslash [] = []"
| "unbackslash (c # cs) =
     (if c = CHR 0x5C then CHR ''/'' # unbackslash (dropWhile (\<lambda>d. d = CHR 0x5C) cs)
      else c # unbackslash cs)"
  by pat_completeness auto
termination
  by (relation "measure length") (auto simp: length_dropWhile_le less_Suc_eq_le)

text \<open>
  \<open>walk\<close> and the body of its loop (\<open>visit\<close>), with the list \<open>files\<close> they push to.
  \<open>inc\<close> is \<open>includeMatcher.match\<close> and \<open>excs\<close> are the \<open>match\<close> functions of
  \<open>excludeMatchers\<close>. An entry that an exclude matcher matches is skipped (\<open>continue\<close>)
  only under \<open>entry.isDirectory()\<close>.
\<close>

fun walk ::
    "(string \<Rightarrow> bool) \<Rightarrow> (string \<Rightarrow> bool) list \<Rightarrow> string \<Rightarrow> string \<Rightarrow>
     dirent list \<Rightarrow> string list \<Rightarrow> string list"
  and visit ::
    "(string \<Rightarrow> bool) \<Rightarrow> (string \<Rightarrow> bool) list \<Rightarrow> string \<Rightarrow> string \<Rightarrow>
     dirent \<Rightarrow> string list \<Rightarrow> string list" where
  "walk inc excs rootDir d [] files = files"
| "walk inc excs rootDir d (entry # entries) files =
     walk inc excs rootDir d entries (visit inc excs rootDir d entry files)"
| "visit inc excs rootDir d (Directory n sub) files =
     (let fullPath = path_join d n;
          relPath = path_relative rootDir fullPath
      in if list_ex (\<lambda>m. m relPath \<or> m n) excs then files
         else (case sub of
                 None \<Rightarrow> files
               | Some entries \<Rightarrow> walk inc excs rootDir fullPath entries files))"
| "visit inc excs rootDir d (File n) files =
     (let fullPath = path_join d n;
          relPath = path_relative rootDir fullPath
      in if list_ex (\<lambda>m. m relPath \<or> m n) excs \<and> isDirectory (File n) then files
         else if inc relPath \<or> inc n then files @ [fullPath]
         else files)"
| "visit inc excs rootDir d (Other n) files = files"

text \<open>
  \<open>minimatch pattern dot\<close> stands for the \<open>match\<close> function of
  \<open>new Minimatch(pattern, { dot, matchBase: true })\<close>; \<open>listing\<close> is what reading the root
  directory gives.
\<close>

definition collectFiles ::
  "(string \<Rightarrow> bool \<Rightarrow> string \<Rightarrow> bool) \<Rightarrow> string \<Rightarrow> string \<Rightarrow> string list \<Rightarrow>
   dirent list option \<Rightarrow> string list" where
  "collectFiles minimatch rootDir includePattern excludePatterns listing =
     (let includeMatcher = minimatch includePattern False;
          excludeMatchers = map (\<lambda>pattern. minimatch (unbackslash pattern) True) excludePatterns
      in case listing of
           None \<Rightarrow> []
         | Some entries \<Rightarrow> walk includeMatcher excludeMatchers rootDir rootDir entries [])"

subsection \<open>The apply phase of run\<close>

text \<open>
  The variables the workers share: the claim cursor \<open>index\<close>, the two counters, the list
  \<open>changedFiles\<close>, the files on disk and the console. \<open>claimed\<close> is not in the source: it
  records, for the analysis, each index a worker took below \<open>files.length\<close> and the number
  of that worker.
\<close>

record state =
  index :: nat
  filesChecked :: nat
  filesChanged :: nat
  changedFiles :: "string list"
  disk :: disk
  console :: "line list"
  claimed :: "(nat \<times> nat) list"

text \<open>
  One turn of the worker's loop for \<open>filePath = files[i]\<close>, from the probe to the end of
  the \<open>try\<close>. A throw of \<open>formatFile\<close> happens before the counters are touched; a
  throw of \<open>writeFileSync\<close> after they are. Both end in the \<open>catch\<close>.
\<close>

definition process_file :: "language_service \<Rightarrow> options \<Rightarrow> string \<Rightarrow> state \<Rightarrow> state" where
  "process_file getEdits opts filePath s =
     (if \<not> isTextFile (disk s) filePath then s
      else
        (case formatFile getEdits (disk s) filePath of
           Inl err \<Rightarrow>
             s\<lparr>console := console s @
                 [ConsoleError (''Error formatting '' @ filePath @ '': '' @ message err)]\<rparr>
         | Inr (formattedText, changed) \<Rightarrow>
             (let s1 = s\<lparr>filesChecked := filesChecked s + 1\<rparr> in
              if changed then
                (let s2 = s1\<lparr>filesChanged := filesChanged s1 + 1,
                            changedFiles := changedFiles s1 @ [filePath]\<rparr>;
                     label = (if dry opts \<or> check opts then ''Would format'' else ''Formatted'');
                     s3 = (if \<not> silent opts
                           then s2\<lparr>console := console s2 @ [ConsoleLog (label @ '': '' @ filePath)]\<rparr>
                           else s2)
                 in if \<not> dry opts \<and> \<not> check opts then
                      (case writeFileSync (disk s3) filePath formattedText of
                         Inl err \<Rightarrow>
                           s3\<lparr>console := console s3 @
                               [ConsoleError (''Error formatting '' @ filePath @ '': '' @ message err)]\<rparr>
                       | Inr d \<Rightarrow> s3\<lparr>disk := d\<rparr>)
                    else s3)
              else s1)))"

lemma index_process_file [simp]: "index (process_file getEdits opts filePath s) = index s"
  by (simp add: process_file_def Let_def split: sum.splits prod.splits)

text \<open>
  \<open>worker\<close>: \<open>while (true) { const i = index++; if (i >= files.length) return; ... }\<close>. The
  function has no \<open>await\<close>, so a call runs its loop to the end before the next worker is
  started. \<open>k\<close> is the number of the worker, for \<open>claimed\<close> only.
\<close>

function worker ::
  "language_service \<Rightarrow> options \<Rightarrow> string list \<Rightarrow> nat \<Rightarrow> state \<Rightarrow> state" where
  "worker getEdits opts files k s =
     (let i = index s;
          s1 = s\<lparr>index := index s + 1\<rparr>
      in if i \<ge> length files then s1
         else worker getEdits opts files k
                (process_file getEdits opts (files ! i) (s1\<lparr>claimed := claimed s1 @ [(k, i)]\<rparr>)))"
  by pat_completeness auto
termination
  by (relation "measure (\<lambda>(getEdits, opts, files, k, s). length files - index s)") auto

text \<open>
  \<open>for (let i = 0; i < concurrency; i++) workers.push(worker())\<close>, then
  \<open>await Promise.all(workers)\<close>.
\<close>

fun start_workers ::
  "language_service \<Rightarrow> options \<Rightarrow> string list \<Rightarrow> nat \<Rightarrow> nat \<Rightarrow> state \<Rightarrow> state" where
  "start_workers getEdits opts files i 0 s = s"
| "start_workers getEdits opts files i (Suc n) s =
     start_workers getEdits opts files (Suc i) n (worker getEdits opts files i s)"

subsection \<open>run\<close>

text \<open>
  What \<open>run\<close> takes from outside the repository: \<open>toInteger\<close> (see \<open>parse_loop\<close>),
  \<open>minimatch\<close> (see \<open>collectFiles\<close>), \<open>path.resolve\<close> and \<open>path.extname\<close>,
  \<open>os.cpus().length\<close>, the milliseconds \<open>Date.now()\<close> advanced by during the run, and the
  language service.
\<close>

record host =
  toInteger :: "string \<Rightarrow> int option"
  minimatch :: "string \<Rightarrow> bool \<Rightarrow> string \<Rightarrow> bool"
  resolve :: "string \<Rightarrow> string"
  extname :: "string \<Rightarrow> string"
  cpus :: nat
  elapsedMs :: nat
  getEdits :: language_service

text \<open>
  What \<open>existsSync\<close> and \<open>statSync\<close> find at a path: nothing, a throw of \<open>statSync\<close>, a
  directory and its listing, a regular file, or something else.
\<close>

datatype stat = NoEntry | StatThrows | StatDirectory "dirent list option" | StatFile | StatOther

record world =
  lookup :: "string \<Rightarrow> stat"
  store :: disk

text \<open>
  What one run leaves: \<open>process.exitCode\<close> (\<open>None\<close> while it is never assigned), the
  console, and the files on disk. For the analysis, also the list of \<open>collectFiles\<close>
  (\<open>None\<close> when the run returned before the traversal) and the shared variables after
  the apply phase (\<open>None\<close> when the run returned before it).
\<close>

record run_result =
  exitCode :: "nat option"
  stdio :: "line list"
  files_on_disk :: disk
  collected :: "string list option"
  summary :: "state option"

text \<open>The status the process exits with: \<open>0\<close> when \<open>process.exitCode\<close> was never assigned.\<close>

definition exit_status :: "run_result \<Rightarrow> nat" where
  "exit_status r = (case exitCode r of None \<Rightarrow> 0 | Some c \<Rightarrow> c)"

text \<open>A string variable that may be \<open>undefined\<close> is truthy when it holds a non-empty string.\<close>

fun truthy :: "string option \<Rightarrow> bool" where
  "truthy None = False"
| "truthy (Some v) = (v \<noteq> [])"

fun string_of :: "string option \<Rightarrow> string" where
  "string_of None = []"
| "string_of (Some v) = v"

text \<open>\<open>toLowerCase\<close> on the letters of ASCII, and \<open>xs.join(", ")\<close>.\<close>

definition toLowerCase :: "string \<Rightarrow> string" where
  "toLowerCase s =
     map (\<lambda>c. let n = (of_char c :: nat) in if 65 \<le> n \<and> n \<le> 90 then char_of (n + 32) else c) s"

fun join_comma :: "string list \<Rightarrow> string" where
  "join_comma [] = []"
| "join_comma [x] = x"
| "join_comma (x # y # ys) = x @ '', '' @ join_comma (y # ys)"

text \<open>A \<open>return\<close> of \<open>run\<close> before the traversal.\<close>

definition early :: "world \<Rightarrow> nat option \<Rightarrow> line list \<Rightarrow> run_result" where
  "early w code out =
     \<lparr>exitCode = code, stdio = out, files_on_disk = store w, collected = None, summary = None\<rparr>"

definition mode_lines :: "options \<Rightarrow> line list" where
  "mode_lines opts =
     (if dry opts then [ConsoleLog ''Mode: dry-run''] else []) @
     (if check opts then [ConsoleLog ''Mode: check''] else [])"

text \<open>
  From \<open>let filesChecked = 0\<close> to the end of \<open>run\<close>: the shared variables as they start
  (\<open>initial\<close>), the number of workers (\<open>options.concurrency || os.cpus().length || 4\<close>),
  the workers, the summary and the exit code. In write mode \<open>process.exitCode\<close> is left
  as it was.
\<close>

definition pool_size :: "host \<Rightarrow> options \<Rightarrow> nat" where
  "pool_size h opts =
     (if concurrency opts \<noteq> 0 then concurrency opts else if cpus h \<noteq> 0 then cpus h else 4)"

definition initial :: "disk \<Rightarrow> line list \<Rightarrow> state" where
  "initial d out =
     \<lparr>index = 0, filesChecked = 0, filesChanged = 0, changedFiles = [],
      disk = d, console = out, claimed = []\<rparr>"

definition apply_phase :: "host \<Rightarrow> options \<Rightarrow> string list \<Rightarrow> disk \<Rightarrow> line list \<Rightarrow> state" where
  "apply_phase h opts files d out =
     start_workers (getEdits h) opts files 0 (pool_size h opts) (initial d out)"

definition report :: "host \<Rightarrow> options \<Rightarrow> state \<Rightarrow> nat option \<times> line list" where
  "report h opts s =
     (let out1 = (if \<not> silent opts
                  then [ConsoleLog [], ConsoleLog ''Summary:'',
                        ConsoleLog (''  Files checked:   '' @ show_nat (filesChecked s)),
                        ConsoleLog (''  Files formatted: '' @ show_nat (filesChanged s)),
                        ConsoleLog (''  Time elapsed:    '' @ show_nat (elapsedMs h) @ '' ms'')]
                  else [])
      in if dry opts \<or> check opts then
           (if filesChanged s > 0 then
              (Some 1,
               out1 @ (if \<not> silent opts
                       then [ConsoleLog [], ConsoleLog ''Files that would be changed:''] @
                            map (\<lambda>f. ConsoleLog (''  '' @ f)) (changedFiles s)
                       else []))
            else (Some 0, out1 @ (if \<not> silent opts then [ConsoleLog ''No changes needed.''] else [])))
         else (None, out1))"

definition finish :: "host \<Rightarrow> options \<Rightarrow> string list \<Rightarrow> bool \<Rightarrow> disk \<Rightarrow> line list \<Rightarrow> run_result" where
  "finish h opts files traversed d out =
     (let s = apply_phase h opts files d out;
          (code, out') = report h opts s
      in \<lparr>exitCode = code, stdio = console s @ out', files_on_disk = disk s,
          collected = (if traversed then Some files else None), summary = Some s\<rparr>)"

text \<open>
  \<open>run\<close> from \<open>fs.existsSync(targetPath)\<close> on, for the options parsed and the lines
  \<open>out0\<close> printed so far: the branch for a directory, the branch for a single file, and
  the returns for a path that is neither or cannot be used.
\<close>

definition run_directory ::
  "host \<Rightarrow> world \<Rightarrow> options \<Rightarrow> line list \<Rightarrow> string \<Rightarrow> dirent list option \<Rightarrow> run_result" where
  "run_directory h w opts out0 rootDir listing =
     (let out1 = out0 @
            (if \<not> silent opts
             then [ConsoleLog (''Formatting in directory: '' @ rootDir),
                   ConsoleLog (''Include: '' @ includeGlob opts),
                   ConsoleLog (''Exclude: '' @ join_comma (exclude opts)),
                   ConsoleLog (''Concurrency: '' @ show_nat (concurrency opts))] @
                  mode_lines opts
             else []);
          files = collectFiles (minimatch h) rootDir (includeGlob opts) (exclude opts) listing
      in if length files = 0 then
           \<lparr>exitCode = None,
            stdio = out1 @ (if \<not> silent opts then [ConsoleLog ''No matching files found.''] else []),
            files_on_disk = store w, collected = Some files, summary = None\<rparr>
         else
           finish h opts files True (store w)
             (out1 @ (if \<not> silent opts
                      then [ConsoleLog (''Found '' @ show_nat (length files) @ '' file(s).'')]
                      else [])))"

definition run_file :: "host \<Rightarrow> world \<Rightarrow> options \<Rightarrow> line list \<Rightarrow> string \<Rightarrow> run_result" where
  "run_file h w opts out0 targetPath =
     (let ext = toLowerCase (extname h targetPath)
      in if ext \<noteq> ''.ts'' \<and> ext \<noteq> ''.tsx'' \<and> ext \<noteq> ''.js'' then
           early w (Some 2) (out0 @ [ConsoleError ''Error: unsupported file type''])
         else
           finish h opts [targetPath] False (store w)
             (out0 @ (if \<not> silent opts
                      then [ConsoleLog (''Formatting file: '' @ targetPath)] @ mode_lines opts
                      else [])))"

definition run_target :: "host \<Rightarrow> world \<Rightarrow> options \<Rightarrow> line list \<Rightarrow> string \<Rightarrow> run_result" where
  "run_target h w opts out0 targetPath =
     (case lookup w targetPath of
        NoEntry \<Rightarrow>
          early w (Some 2) (out0 @ [ConsoleError (''Error: path does not exist: '' @ targetPath)])
      | StatThrows \<Rightarrow>
          early w (Some 2) (out0 @ [ConsoleError (''Error: failed to stat path: '' @ targetPath)])
      | StatDirectory listing \<Rightarrow> run_directory h w opts out0 targetPath listing
      | StatFile \<Rightarrow> run_file h w opts out0 targetPath
      | StatOther \<Rightarrow>
          early w (Some 2)
            (out0 @ [ConsoleError ''Error: target path is neither a file nor a directory'']))"

text \<open>
  \<open>run\<close>: the arguments, the help, the target (the positional path wins over \<open>--dir\<close>),
  then the rest. A throw of \<open>parseArgs\<close> and a missing target set the exit code 2 and
  return.
\<close>

definition run :: "host \<Rightarrow> world \<Rightarrow> string list \<Rightarrow> run_result" where
  "run h w argv =
     (case parseArgs (toInteger h) argv of
        Inl err \<Rightarrow>
          early w (Some 2)
            [ConsoleError (''Error: '' @ message err),
             ConsoleError ''Use --help for usage information.'']
      | Inr (opts, positionalPath, showHelp) \<Rightarrow>
          if showHelp then early w None printHelp
          else
            (let targetFromFlag = dir opts;
                 targetFromPositional = positionalPath
             in if \<not> truthy targetFromFlag \<and> \<not> truthy targetFromPositional then
                  early w (Some 2)
                    (printHelp @ [ConsoleError (CHR 0x0A # ''Error: target path is required.'')])
                else
                  (let out0 = (if truthy targetFromFlag \<and> truthy targetFromPositional \<and> \<not> silent opts
                               then [ConsoleWarn ''Warning: both positional path and --dir were provided; using positional path and ignoring --dir.'']
                               else []);
                       rawTarget = (if truthy targetFromPositional then string_of targetFromPositional
                                    else string_of targetFromFlag);
                       targetPath = resolve h rawTarget
                   in run_target h w opts out0 targetPath)))"

subsection \<open>Notions for the analysis\<close>

text \<open>
  A file counts as changed for a run when it passes the probe and \<open>formatFile\<close> returns
  with \<open>changed\<close> set, on the files as they are at that moment.
\<close>

definition would_change :: "language_service \<Rightarrow> disk \<Rightarrow> string \<Rightarrow> bool" where
  "would_change g d filePath =
     (isTextFile d filePath \<and>
      (case formatFile g d filePath of
         Inl err \<Rightarrow> False
       | Inr (formattedText, changed) \<Rightarrow> changed))"

text \<open>
  The position in a buffer that \<open>slice\<close> makes of an offset: an offset below zero counts
  from the end, and the result is kept within the buffer.
\<close>

definition resolved :: "string \<Rightarrow> int \<Rightarrow> nat" where
  "resolved buffer x =
     nat (if x < 0 then max (int (length buffer) + x) 0 else min x (int (length buffer)))"

text \<open>
  A file counts as checked for a run when it passes the probe and \<open>formatFile\<close> returns.
\<close>

definition gets_checked :: "language_service \<Rightarrow> disk \<Rightarrow> string \<Rightarrow> bool" where
  "gets_checked g d filePath =
     (isTextFile d filePath \<and>
      (case formatFile g d filePath of Inl err \<Rightarrow> False | Inr r \<Rightarrow> True))"




text \<open>
  How a run ends on a usage error: exit status 2, no traversal, no apply phase, and the
  files on disk as they were.
\<close>

definition usage_exit :: "world \<Rightarrow> run_result \<Rightarrow> bool" where
  "usage_exit w r \<longleftrightarrow>
     exit_status r = 2 \<and> collected r = None \<and> summary r = None \<and> files_on_disk r = store w"

subsection \<open>A concrete tree, for the examples\<close>

text \<open>
  The scenario of the specification: a root \<open>/r\<close> with \<open>a.ts\<close>, which needs one edit,
  \<open>b.ts\<close>, which is formatted, and \<open>node_modules/c.ts\<close>. \<open>demo_edits\<close> is a language
  service that knows these texts and throws on the text \<open>boom\<close>; \<open>demo_minimatch\<close>
  answers as minimatch does for the default include glob and for a pattern that is a
  plain name.
\<close>

definition demo_edits :: language_service where
  "demo_edits fileName text =
     (if text = ''a  b'' then Inr (Some [\<lparr>span_start = 1, span_length = 2, newText = '' ''\<rparr>])
      else if text = ''boom'' then Inl (Error ''service failed'')
      else Inr (Some []))"

definition demo_minimatch :: "string \<Rightarrow> bool \<Rightarrow> string \<Rightarrow> bool" where
  "demo_minimatch pattern dot p =
     (if pattern = ''**/*.{ts,tsx,js}''
      then suffix ''.ts'' p \<or> suffix ''.tsx'' p \<or> suffix ''.js'' p
      else p = pattern \<or> suffix (''/'' @ pattern) p)"

definition demo_host :: host where
  "demo_host =
     \<lparr>toInteger = (\<lambda>v. if v = ''2'' then Some 2 else if v = ''0'' then Some 0 else None),
      minimatch = demo_minimatch,
      resolve = (\<lambda>p. p),
      extname = (\<lambda>p. if suffix ''.ts'' p then ''.ts'' else []),
      cpus = 4, elapsedMs = 7, getEdits = demo_edits\<rparr>"

definition demo_disk :: disk where
  "demo_disk =
     [''/r/a.ts'' \<mapsto> \<lparr>bytes = ''a  b'', readable = True, writable = True\<rparr>,
      ''/r/b.ts'' \<mapsto> \<lparr>bytes = ''c d'', readable = True, writable = True\<rparr>,
      ''/r/node_modules/c.ts'' \<mapsto> \<lparr>bytes = ''a  b'', readable = True, writable = True\<rparr>]"


section \<open>Properties of the formatter\<close>

lemma format_loop_foldr:
  "n \<le> length es \<Longrightarrow> format_loop es n r = foldr (\<lambda>e acc. apply_edit acc e) (take n es) r"
proof (induction n arbitrary: r)
  case 0
  then show ?case by simp
next
  case (Suc n)
  then have "take (Suc n) es = take n es @ [es ! n]"
    by (simp add: take_Suc_conv_app_nth)
  with Suc show ?case by simp
qed

lemma format_edits_foldr:
  "format_edits text (Some es) = foldr (\<lambda>e acc. apply_edit acc e) es text"
  by (cases es) (simp_all add: format_edits_def format_loop_foldr del: format_loop.simps)

lemma slice_take: "0 \<le> a \<Longrightarrow> slice s 0 a = take (nat a) s"
  by (auto simp: slice_def Let_def min_def)

lemma slice_from_drop: "0 \<le> a \<Longrightarrow> slice_from s a = drop (nat a) s"
  by (auto simp: slice_from_def slice_def Let_def min_def)

text \<open>
  Applied from the last edit to the first, edits in ascending order leave the part of
  the buffer before position \<open>pos\<close> as it was while every edit starts at or after \<open>pos\<close>.
\<close>

lemma foldr_splice_edits:
  "ascending es \<Longrightarrow> list_all (in_bounds orig) es \<Longrightarrow>
   list_all (\<lambda>e. int pos \<le> span_start e) es \<Longrightarrow> pos \<le> length orig \<Longrightarrow>
   foldr (\<lambda>e acc. apply_edit acc e) es orig = take pos orig @ splice_edits orig pos es"
proof (induction es arbitrary: pos)
  case Nil
  then show ?case by simp
next
  case (Cons e es)
  let ?s = "nat (span_start e)" and ?t = "nat (span_start e + span_length e)"
  from Cons.prems have b: "0 \<le> span_start e" "0 \<le> span_length e" "?t \<le> length orig" "pos \<le> ?s"
    by (auto simp: in_bounds_def)
  have later: "list_all (\<lambda>b. int ?t \<le> span_start b) es"
    using Cons.prems(1) b by (auto simp: list_all_iff)
  have ih: "foldr (\<lambda>e acc. apply_edit acc e) es orig = take ?t orig @ splice_edits orig ?t es"
    using Cons.IH[of ?t] Cons.prems later b by simp
  have st: "?s \<le> ?t" using b by simp
  have 1: "take ?s (take ?t orig @ splice_edits orig ?t es) = take ?s orig"
    using st b by (simp add: min_def)
  have 2: "drop ?t (take ?t orig @ splice_edits orig ?t es) = splice_edits orig ?t es"
    using b by simp
  have 3: "take pos orig @ take (?s - pos) (drop pos orig) = take ?s orig"
    using b by (metis le_add_diff_inverse take_add)
  have "foldr (\<lambda>e acc. apply_edit acc e) (e # es) orig =
        apply_edit (take ?t orig @ splice_edits orig ?t es) e"
    by (simp add: ih)
  also have "\<dots> = take ?s orig @ newText e @ splice_edits orig ?t es"
    using b 1 2 by (simp add: apply_edit_def Let_def slice_take slice_from_drop)
  also have "\<dots> = take pos orig @ splice_edits orig pos (e # es)"
    using 3 by simp
  finally show ?case .
qed

lemma ascending_sorted:
  "ascending es \<Longrightarrow> list_all (in_bounds orig) es \<Longrightarrow> sorted (map span_start es)"
proof (induction es)
  case Nil
  then show ?case by simp
next
  case (Cons e es)
  then have "\<forall>b\<in>set es. span_start e \<le> span_start b"
    by (auto simp: list_all_iff in_bounds_def)
  with Cons show ?case by simp
qed

lemma ascending_non_overlapping: "ascending es \<Longrightarrow> non_overlapping es"
  by (induction es) (auto simp: list_all_iff disjoint_spans_def)

text \<open>
  Claim C1, as the code has it. \<open>format\<close> does not sort: it applies the edits in the
  reverse of the order in which the language service delivered them. When that order is
  ascending (each edit ends at or before the start of every later one, so the ranges are
  pairwise non-overlapping) and every range is in bounds, the result is the simultaneous
  application of the edits to the original buffer.
\<close>

theorem format_ascending_simultaneous:
  assumes "list_all (in_bounds original) edits" and "ascending edits"
  shows "format_edits original (Some edits) = foldr (\<lambda>e acc. apply_edit acc e) edits original \<and>
         non_overlapping edits \<and>
         format_edits original (Some edits) = simultaneous original edits"
proof -
  have "sort_key span_start edits = edits"
    using assms by (simp add: ascending_sorted sort_key_id_if_sorted)
  moreover have "list_all (\<lambda>e. int 0 \<le> span_start e) edits"
    using assms(1) by (auto simp: list_all_iff in_bounds_def)
  then have "foldr (\<lambda>e acc. apply_edit acc e) edits original = splice_edits original 0 edits"
    using foldr_splice_edits[of edits original 0] assms by simp
  ultimately show ?thesis
    using assms(2) by (simp add: format_edits_foldr simultaneous_def ascending_non_overlapping)
qed

theorem format_ascending_simultaneous_witness:
  "format_edits ''abcd''
     (Some [\<lparr>span_start = 0, span_length = 1, newText = ''PQR''\<rparr>,
            \<lparr>span_start = 2, span_length = 1, newText = ''XY''\<rparr>]) = ''PQRbXYd'' \<and>
   simultaneous ''abcd''
     [\<lparr>span_start = 0, span_length = 1, newText = ''PQR''\<rparr>,
      \<lparr>span_start = 2, span_length = 1, newText = ''XY''\<rparr>] = ''PQRbXYd''"
proof -
  let ?es = "[\<lparr>span_start = 0, span_length = 1, newText = ''PQR''\<rparr>,
              \<lparr>span_start = 2, span_length = 1, newText = ''XY''\<rparr>]"
  have h1: "list_all (in_bounds ''abcd'') ?es"
    by (simp add: in_bounds_def)
  have h2: "ascending ?es"
    by simp
  have v: "format_edits ''abcd'' (Some ?es) = ''PQRbXYd''"
    by (simp add: format_edits_foldr apply_edit_def slice_def slice_from_def)
  from format_ascending_simultaneous [OF h1 h2] have "format_edits ''abcd'' (Some ?es) = simultaneous ''abcd'' ?es"
    by blast
  with v show ?thesis by simp
qed

text \<open>
  Claim C1 as stated fails: the same two edits, in bounds and non-overlapping, delivered
  in descending order. The second edit is applied first and moves the text the first one
  then addresses.
\<close>

theorem format_unsorted_counterexample:
  "list_all (in_bounds ''abcd'')
     [\<lparr>span_start = 2, span_length = 1, newText = ''XY''\<rparr>,
      \<lparr>span_start = 0, span_length = 1, newText = ''PQR''\<rparr>] \<and>
   non_overlapping
     [\<lparr>span_start = 2, span_length = 1, newText = ''XY''\<rparr>,
      \<lparr>span_start = 0, span_length = 1, newText = ''PQR''\<rparr>] \<and>
   format_edits ''abcd''
     (Some [\<lparr>span_start = 2, span_length = 1, newText = ''XY''\<rparr>,
            \<lparr>span_start = 0, span_length = 1, newText = ''PQR''\<rparr>]) = ''PQXYbcd'' \<and>
   simultaneous ''abcd''
     [\<lparr>span_start = 2, span_length = 1, newText = ''XY''\<rparr>,
      \<lparr>span_start = 0, span_length = 1, newText = ''PQR''\<rparr>] = ''PQRbXYd''"
  by (simp add: in_bounds_def disjoint_spans_def format_edits_foldr apply_edit_def
      slice_def slice_from_def simultaneous_def)

text \<open>
  Claim C8: applying an empty set of edits returns the original text, whether the answer
  of the language service is an empty list or a falsy value; \<open>formatFile\<close> then reports
  the file as not changed.
\<close>

theorem format_empty_edits_identity:
  "format_edits text (Some []) = text \<and>
   format_edits text None = text \<and>
   format (\<lambda>fileName t. Inr (Some [])) fileName text = Inr text \<and>
   (readFileSync d filePath = Inr text \<longrightarrow>
      formatFile (\<lambda>fileName t. Inr (Some [])) d filePath = Inr (text, False))"
  by (simp add: format_edits_def format_def formatFile_def)

theorem format_empty_edits_identity_witness:
  "readFileSync [''/r/a.ts'' \<mapsto> \<lparr>bytes = ''let x'', readable = True, writable = True\<rparr>] ''/r/a.ts''
     = Inr ''let x'' \<and>
   formatFile (\<lambda>fileName t. Inr (Some []))
     [''/r/a.ts'' \<mapsto> \<lparr>bytes = ''let x'', readable = True, writable = True\<rparr>] ''/r/a.ts''
     = Inr (''let x'', False)"
  using format_empty_edits_identity
    [of "''let x''" "''/r/a.ts''"
        "[''/r/a.ts'' \<mapsto> \<lparr>bytes = ''let x'', readable = True, writable = True\<rparr>]" "''/r/a.ts''"]
  by (simp add: readFileSync_def)

section \<open>Properties of the worker pool\<close>

declare worker.simps [simp del]

lemma process_file_ghost:
  "process_file g opts f (s\<lparr>index := i, claimed := c\<rparr>) =
   (process_file g opts f s)\<lparr>index := i, claimed := c\<rparr>"
  by (simp add: process_file_def Let_def split: sum.splits prod.splits)

lemma claimed_process_file [simp]: "claimed (process_file g opts f s) = claimed s"
  by (simp add: process_file_def Let_def split: sum.splits prod.splits)

lemma fold_process_file_ghost:
  "fold (process_file g opts) fs (s\<lparr>index := i, claimed := c\<rparr>) =
   (fold (process_file g opts) fs s)\<lparr>index := i, claimed := c\<rparr>"
  by (induction fs arbitrary: s) (simp_all add: process_file_ghost)

lemma worker_past_end:
  "length files \<le> index s \<Longrightarrow> worker g opts files k s = s\<lparr>index := index s + 1\<rparr>"
  by (subst worker.simps) (simp add: Let_def)

lemma worker_fold:
  "index s \<le> length files \<Longrightarrow>
   worker g opts files k s =
   (fold (process_file g opts) (drop (index s) files) s)
     \<lparr>index := length files + 1,
      claimed := claimed s @ map (Pair k) [index s..<length files]\<rparr>"
proof (induction g opts files k s rule: worker.induct)
  case (1 g opts files k s)
  show ?case
  proof (cases "index s < length files")
    case False
    with "1.prems" have "index s = length files" by simp
    then show ?thesis by (simp add: worker_past_end)
  next
    case True
    let ?i = "index s"
    let ?s1 = "s\<lparr>index := ?i + 1, claimed := claimed s @ [(k, ?i)]\<rparr>"
    let ?s' = "process_file g opts (files ! ?i) ?s1"
    have step: "worker g opts files k s = worker g opts files k ?s'"
      using True by (subst worker.simps) (simp add: Let_def)
    have ih: "worker g opts files k ?s' =
        (fold (process_file g opts) (drop (index ?s') files) ?s')
          \<lparr>index := length files + 1,
           claimed := claimed ?s' @ map (Pair k) [index ?s'..<length files]\<rparr>"
      using "1.IH"[of ?i "s\<lparr>index := ?i + 1\<rparr>"] True by simp
    have d: "drop ?i files = files ! ?i # drop (Suc ?i) files"
      using True by (simp add: Cons_nth_drop_Suc)
    have u: "[?i..<length files] = ?i # [Suc ?i..<length files]"
      using True by (simp add: upt_conv_Cons)
    show ?thesis
      unfolding step ih
      by (simp add: d u process_file_ghost fold_process_file_ghost)
  qed
qed

lemma start_workers_past_end:
  "length files \<le> index s \<Longrightarrow>
   start_workers g opts files i n s = s\<lparr>index := index s + n\<rparr>"
  by (induction n arbitrary: i s) (simp_all add: worker_past_end)

lemma start_workers_fold:
  "index s \<le> length files \<Longrightarrow>
   start_workers g opts files i (Suc n) s =
   (fold (process_file g opts) (drop (index s) files) s)
     \<lparr>index := length files + Suc n,
      claimed := claimed s @ map (Pair i) [index s..<length files]\<rparr>"
  by (simp add: worker_fold start_workers_past_end)

lemma isTextFile_cong: "d p = d' p \<Longrightarrow> isTextFile d p = isTextFile d' p"
  by (simp add: isTextFile_def)

lemma formatFile_cong: "d p = d' p \<Longrightarrow> formatFile g d p = formatFile g d' p"
  by (simp add: formatFile_def readFileSync_def)

lemma would_change_cong: "d p = d' p \<Longrightarrow> would_change g d p = would_change g d' p"
  by (simp add: would_change_def isTextFile_cong[of d p d'] formatFile_cong[of d p d'])

lemma disk_process_file_readonly:
  "dry opts \<or> check opts \<Longrightarrow> disk (process_file g opts f s) = disk s"
  by (auto simp: process_file_def Let_def split: sum.splits prod.splits)

lemma disk_process_file_other:
  "p \<noteq> f \<Longrightarrow> disk (process_file g opts f s) p = disk s p"
  by (auto simp: process_file_def Let_def writeFileSync_def
      split: sum.splits prod.splits option.splits if_splits)

lemma changedFiles_process_file:
  "changedFiles (process_file g opts f s) =
   changedFiles s @ (if would_change g (disk s) f then [f] else [])"
  by (auto simp: process_file_def would_change_def Let_def split: sum.splits prod.splits)

lemma filesChanged_process_file:
  "filesChanged (process_file g opts f s) =
   filesChanged s + (if would_change g (disk s) f then 1 else 0)"
  by (auto simp: process_file_def would_change_def Let_def split: sum.splits prod.splits)

lemma changedFiles_fold:
  "distinct fs \<or> dry opts \<or> check opts \<Longrightarrow>
   changedFiles (fold (process_file g opts) fs s) =
   changedFiles s @ filter (would_change g (disk s)) fs"
proof (induction fs arbitrary: s)
  case Nil
  then show ?case by simp
next
  case (Cons f fs)
  let ?s' = "process_file g opts f s"
  have "\<forall>p\<in>set fs. would_change g (disk ?s') p = would_change g (disk s) p"
  proof
    fix p assume p: "p \<in> set fs"
    show "would_change g (disk ?s') p = would_change g (disk s) p"
    proof (cases "dry opts \<or> check opts")
      case True
      then show ?thesis by (simp add: disk_process_file_readonly)
    next
      case False
      with Cons.prems p have "p \<noteq> f" by auto
      then show ?thesis
        by (intro would_change_cong disk_process_file_other)
    qed
  qed
  then have "filter (would_change g (disk ?s')) fs = filter (would_change g (disk s)) fs"
    by (simp cong: filter_cong)
  moreover have "distinct fs \<or> dry opts \<or> check opts"
    using Cons.prems by auto
  ultimately show ?case
    using Cons.IH[of ?s'] by (simp add: changedFiles_process_file)
qed

lemma filesChanged_fold:
  "filesChanged (fold (process_file g opts) fs s) + length (changedFiles s) =
   filesChanged s + length (changedFiles (fold (process_file g opts) fs s))"
proof (induction fs arbitrary: s)
  case Nil
  then show ?case by simp
next
  case (Cons f fs)
  show ?case
    using Cons.IH[of "process_file g opts f s"]
    by (simp add: changedFiles_process_file filesChanged_process_file split: if_splits)
qed

lemma disk_fold_readonly:
  "dry opts \<or> check opts \<Longrightarrow> disk (fold (process_file g opts) fs s) = disk s"
  by (induction fs arbitrary: s) (simp_all add: disk_process_file_readonly)

lemma subseq_changedFiles_fold:
  "\<exists>ys. changedFiles (fold (process_file g opts) fs s) = changedFiles s @ ys \<and> subseq ys fs"
proof (induction fs arbitrary: s)
  case Nil
  then show ?case by simp
next
  case (Cons f fs)
  obtain ys where ys: "changedFiles (fold (process_file g opts) fs (process_file g opts f s)) =
      changedFiles (process_file g opts f s) @ ys" "subseq ys fs"
    using Cons.IH by blast
  show ?case
  proof (cases "would_change g (disk s) f")
    case True
    with ys show ?thesis
      by (intro exI[of _ "f # ys"]) (simp add: changedFiles_process_file)
  next
    case False
    with ys show ?thesis
      by (intro exI[of _ ys]) (auto simp: changedFiles_process_file intro: list_emb_Cons)
  qed
qed

lemma pool_size_pos: "\<exists>n. pool_size h opts = Suc n"
  by (cases "pool_size h opts") (auto simp: pool_size_def split: if_splits)

lemma apply_phase_fold:
  "apply_phase h opts files d out =
   (fold (process_file (getEdits h) opts) files (initial d out))
     \<lparr>index := length files + pool_size h opts,
      claimed := map (Pair 0) [0..<length files]\<rparr>"
proof -
  obtain n where n: "pool_size h opts = Suc n"
    using pool_size_pos by blast
  have "apply_phase h opts files d out =
        start_workers (getEdits h) opts files 0 (Suc n) (initial d out)"
    using n by (simp add: apply_phase_def)
  also have "\<dots> = (fold (process_file (getEdits h) opts) files (initial d out))
     \<lparr>index := length files + Suc n, claimed := map (Pair 0) [0..<length files]\<rparr>"
    by (subst start_workers_fold) (simp_all add: initial_def)
  finally show ?thesis using n by simp
qed

lemma process_file_concurrency [simp]:
  "process_file g (opts\<lparr>concurrency := C\<rparr>) = process_file g opts"
  by (rule ext, rule ext) (simp add: process_file_def Let_def split: sum.splits prod.splits)

lemma filter_upt_eq: "i < n \<Longrightarrow> filter (\<lambda>j. j = i) [0..<n] = [i]"
proof (induction n)
  case 0
  then show ?case by simp
next
  case (Suc n)
  show ?case
  proof (cases "i < n")
    case True
    with Suc show ?thesis by simp
  next
    case False
    with Suc.prems have "i = n" by simp
    then show ?thesis by (simp add: filter_empty_conv)
  qed
qed

lemma fst_report:
  "fst (report h opts s) =
   (if dry opts \<or> check opts then (if 0 < filesChanged s then Some 1 else Some 0) else None)"
  by (simp add: report_def Let_def)

lemma process_file_not_text:
  "\<not> isTextFile (disk s) filePath \<Longrightarrow> process_file g opts filePath s = s"
  by (simp add: process_file_def)

lemma worker_step:
  "index s < length files \<Longrightarrow>
   worker g opts files k s =
   worker g opts files k
     (process_file g opts (files ! index s)
        (s\<lparr>index := index s + 1, claimed := claimed s @ [(k, index s)]\<rparr>))"
  by (subst worker.simps) (simp add: Let_def)

text \<open>
  Claim C10: a file of the list that cannot be opened or read is skipped in silence. The
  probe answers \<open>false\<close>, the turn of the loop leaves every shared variable as it was
  (no line on the console, no counter, no entry in \<open>changedFiles\<close>) and the worker goes on
  with the next index. A file with a zero byte among its first 1024 bytes is treated in
  the same way.
\<close>

theorem unreadable_file_silently_skipped:
  assumes "disk s filePath = None \<or> (\<exists>n. disk s filePath = Some n \<and> \<not> readable n)"
  shows "isTextFile (disk s) filePath = False \<and>
         process_file g opts filePath s = s \<and>
         (index s < length files \<and> files ! index s = filePath \<longrightarrow>
            worker g opts files k s =
            worker g opts files k
              (s\<lparr>index := index s + 1, claimed := claimed s @ [(k, index s)]\<rparr>)) \<and>
         (\<forall>b. (\<exists>n. disk b filePath = Some n \<and> readable n \<and>
                   CHR 0x00 \<in> set (take 1024 (bytes n))) \<longrightarrow>
              isTextFile (disk b) filePath = False \<and> process_file g opts filePath b = b)"
proof -
  have probe: "\<not> isTextFile (disk s) filePath"
    using assms by (auto simp: isTextFile_def)
  have skip: "process_file g opts filePath s = s"
    using probe by (rule process_file_not_text)
  have loop: "worker g opts files k s =
      worker g opts files k (s\<lparr>index := index s + 1, claimed := claimed s @ [(k, index s)]\<rparr>)"
    if "index s < length files" "files ! index s = filePath"
  proof -
    let ?s1 = "s\<lparr>index := index s + 1, claimed := claimed s @ [(k, index s)]\<rparr>"
    have "\<not> isTextFile (disk ?s1) filePath" using probe by simp
    then have "process_file g opts filePath ?s1 = ?s1" by (rule process_file_not_text)
    with that show ?thesis by (simp add: worker_step)
  qed
  have binary: "isTextFile (disk b) filePath = False \<and> process_file g opts filePath b = b"
    if "\<exists>n. disk b filePath = Some n \<and> readable n \<and> CHR 0x00 \<in> set (take 1024 (bytes n))" for b
  proof -
    from that have "\<not> isTextFile (disk b) filePath"
      by (auto simp: isTextFile_def list_all_iff)
    then show ?thesis by (simp add: process_file_not_text)
  qed
  show ?thesis using probe skip loop binary by blast
qed

theorem unreadable_file_silently_skipped_witness:
  "demo_disk ''/r/gone.ts'' = None \<and>
   process_file demo_edits default_options ''/r/gone.ts'' (initial demo_disk []) =
     initial demo_disk [] \<and>
   worker demo_edits default_options [''/r/gone.ts''] 0 (initial demo_disk []) =
     (initial demo_disk [])\<lparr>index := 2, claimed := [(0, 0)]\<rparr> \<and>
   process_file demo_edits default_options ''/r/gone.ts''
     (initial [''/r/gone.ts'' \<mapsto> \<lparr>bytes = [CHR ''a'', CHR 0x00], readable = True, writable = True\<rparr>] []) =
     initial [''/r/gone.ts'' \<mapsto> \<lparr>bytes = [CHR ''a'', CHR 0x00], readable = True, writable = True\<rparr>] []"
proof -
  let ?s = "initial demo_disk []"
  let ?b = "initial [''/r/gone.ts'' \<mapsto> \<lparr>bytes = [CHR ''a'', CHR 0x00], readable = True, writable = True\<rparr>] []"
  have h: "disk ?s ''/r/gone.ts'' = None \<or> (\<exists>n. disk ?s ''/r/gone.ts'' = Some n \<and> \<not> readable n)"
    by (simp add: initial_def demo_disk_def)
  note th = unreadable_file_silently_skipped
    [OF h, of demo_edits default_options "[''/r/gone.ts'']" 0]
  have skip: "process_file demo_edits default_options ''/r/gone.ts'' ?s = ?s"
    using th by blast
  have i: "index ?s < length [''/r/gone.ts''] \<and> [''/r/gone.ts''] ! index ?s = ''/r/gone.ts''"
    by (simp add: initial_def)
  from th i have "worker demo_edits default_options [''/r/gone.ts''] 0 ?s =
      worker demo_edits default_options [''/r/gone.ts''] 0
        (?s\<lparr>index := index ?s + 1, claimed := claimed ?s @ [(0, index ?s)]\<rparr>)"
    by blast
  also have "\<dots> = ?s\<lparr>index := 2, claimed := [(0, 0)]\<rparr>"
    by (simp add: worker_past_end initial_def)
  finally have loop: "worker demo_edits default_options [''/r/gone.ts''] 0 ?s =
      ?s\<lparr>index := 2, claimed := [(0, 0)]\<rparr>" .
  have bin: "\<exists>n. disk ?b ''/r/gone.ts'' = Some n \<and> readable n \<and> CHR 0x00 \<in> set (take 1024 (bytes n))"
    by (simp add: initial_def)
  from th bin have binary: "process_file demo_edits default_options ''/r/gone.ts'' ?b = ?b"
    by blast
  have "demo_disk ''/r/gone.ts'' = None"
    by (simp add: demo_disk_def)
  with skip loop binary show ?thesis by blast
qed

text \<open>
  Claim C6: when \<open>formatFile\<close> throws for a file (the language service fails, or the
  file cannot be read), the worker catches the error and prints it with the path of the
  file; \<open>filesChecked\<close>, \<open>filesChanged\<close>, \<open>changedFiles\<close> and the files on disk stay
  as they were, the loop goes on with the next index, and the exit code the run derives
  is the one it would derive without that file's turn.
\<close>

theorem per_file_failure_contained:
  assumes "isTextFile (disk s) filePath" and "formatFile g (disk s) filePath = Inl err"
  shows "process_file g opts filePath s =
           s\<lparr>console := console s @
               [ConsoleError (''Error formatting '' @ filePath @ '': '' @ message err)]\<rparr> \<and>
         (index s < length files \<and> files ! index s = filePath \<longrightarrow>
            worker g opts files k s =
            worker g opts files k
              (s\<lparr>index := index s + 1, claimed := claimed s @ [(k, index s)],
                 console := console s @
                   [ConsoleError (''Error formatting '' @ filePath @ '': '' @ message err)]\<rparr>)) \<and>
         fst (report h opts (process_file g opts filePath s)) = fst (report h opts s)"
proof -
  let ?line = "ConsoleError (''Error formatting '' @ filePath @ '': '' @ message err)"
  have step: "process_file g opts filePath b = b\<lparr>console := console b @ [?line]\<rparr>"
    if "disk b = disk s" for b
    using assms that by (simp add: process_file_def)
  have loop: "worker g opts files k s =
      worker g opts files k
        (s\<lparr>index := index s + 1, claimed := claimed s @ [(k, index s)],
           console := console s @ [?line]\<rparr>)"
    if "index s < length files" "files ! index s = filePath"
    using that step[of "s\<lparr>index := index s + 1, claimed := claimed s @ [(k, index s)]\<rparr>"]
    by (simp add: worker_step)
  have code: "fst (report h opts (process_file g opts filePath s)) = fst (report h opts s)"
    using step[of s] by (simp add: report_def Let_def)
  show ?thesis using step[of s] loop code by simp
qed

theorem per_file_failure_contained_witness:
  "formatFile demo_edits
     [''/r/bad.ts'' \<mapsto> \<lparr>bytes = ''boom'', readable = True, writable = True\<rparr>] ''/r/bad.ts''
     = Inl (Error ''service failed'') \<and>
   process_file demo_edits default_options ''/r/bad.ts''
     (initial [''/r/bad.ts'' \<mapsto> \<lparr>bytes = ''boom'', readable = True, writable = True\<rparr>] []) =
   (initial [''/r/bad.ts'' \<mapsto> \<lparr>bytes = ''boom'', readable = True, writable = True\<rparr>] [])
     \<lparr>console := [ConsoleError ''Error formatting /r/bad.ts: service failed'']\<rparr> \<and>
   worker demo_edits default_options [''/r/bad.ts''] 0
     (initial [''/r/bad.ts'' \<mapsto> \<lparr>bytes = ''boom'', readable = True, writable = True\<rparr>] []) =
   (initial [''/r/bad.ts'' \<mapsto> \<lparr>bytes = ''boom'', readable = True, writable = True\<rparr>] [])
     \<lparr>index := 2, claimed := [(0, 0)],
      console := [ConsoleError ''Error formatting /r/bad.ts: service failed'']\<rparr> \<and>
   fst (report demo_host (default_options\<lparr>check := True\<rparr>)
     (process_file demo_edits (default_options\<lparr>check := True\<rparr>) ''/r/bad.ts''
       (initial [''/r/bad.ts'' \<mapsto> \<lparr>bytes = ''boom'', readable = True, writable = True\<rparr>] []))) = Some 0"
proof -
  let ?d = "[''/r/bad.ts'' \<mapsto> \<lparr>bytes = ''boom'', readable = True, writable = True\<rparr>]"
  let ?s = "initial ?d []"
  let ?line = "ConsoleError ''Error formatting /r/bad.ts: service failed''"
  have h1: "isTextFile (disk ?s) ''/r/bad.ts''"
    by (simp add: initial_def isTextFile_def)
  have h2: "formatFile demo_edits (disk ?s) ''/r/bad.ts'' = Inl (Error ''service failed'')"
    by (simp add: initial_def formatFile_def readFileSync_def format_def demo_edits_def)
  have l: "ConsoleError (''Error formatting '' @ ''/r/bad.ts'' @ '': '' @ message (Error ''service failed''))
      = ?line"
    by simp
  note th = per_file_failure_contained [OF h1 h2, of default_options "[''/r/bad.ts'']" 0 demo_host]
  note tc = per_file_failure_contained
    [OF h1 h2, of "default_options\<lparr>check := True\<rparr>" "[''/r/bad.ts'']" 0 demo_host]
  from th have step: "process_file demo_edits default_options ''/r/bad.ts'' ?s =
      ?s\<lparr>console := console ?s @ [?line]\<rparr>"
    unfolding l by blast
  have i: "index ?s < length [''/r/bad.ts''] \<and> [''/r/bad.ts''] ! index ?s = ''/r/bad.ts''"
    by (simp add: initial_def)
  from th i have "worker demo_edits default_options [''/r/bad.ts''] 0 ?s =
      worker demo_edits default_options [''/r/bad.ts''] 0
        (?s\<lparr>index := index ?s + 1, claimed := claimed ?s @ [(0, index ?s)],
            console := console ?s @ [?line]\<rparr>)"
    unfolding l by blast
  also have "\<dots> = ?s\<lparr>index := 2, claimed := [(0, 0)], console := [?line]\<rparr>"
    by (simp add: worker_past_end initial_def)
  finally have loop: "worker demo_edits default_options [''/r/bad.ts''] 0 ?s =
      ?s\<lparr>index := 2, claimed := [(0, 0)], console := [?line]\<rparr>" .
  from tc have "fst (report demo_host (default_options\<lparr>check := True\<rparr>)
      (process_file demo_edits (default_options\<lparr>check := True\<rparr>) ''/r/bad.ts'' ?s)) =
      fst (report demo_host (default_options\<lparr>check := True\<rparr>) ?s)"
    by blast
  also have "\<dots> = Some 0"
    by (simp add: fst_report initial_def)
  finally have code: "fst (report demo_host (default_options\<lparr>check := True\<rparr>)
      (process_file demo_edits (default_options\<lparr>check := True\<rparr>) ''/r/bad.ts'' ?s)) = Some 0" .
  have "console ?s = []" by (simp add: initial_def)
  with h2 step loop code show ?thesis by (simp add: initial_def)
qed

lemma slice_resolved: "slice r 0 a = take (resolved r a) r"
  by (simp add: slice_def resolved_def Let_def)

lemma slice_from_resolved: "slice_from r b = drop (resolved r b) r"
proof -
  let ?n = "int (length r)"
  let ?from = "if b < 0 then max (?n + b) 0 else min b ?n"
  have "slice_from r b = take (nat (?n - ?from)) (drop (nat ?from) r)"
    by (simp add: slice_from_def slice_def Let_def)
  also have "nat (?n - ?from) = length (drop (nat ?from) r)"
    by (simp add: nat_diff_distrib') 
  finally show ?thesis
    by (simp add: resolved_def)
qed

lemma apply_edit_resolved:
  "apply_edit r e =
   take (resolved r (span_start e)) r @ newText e @
   drop (resolved r (span_start e + span_length e)) r"
  by (simp add: apply_edit_def Let_def slice_resolved slice_from_resolved)

text \<open>
  Claim C3, as the code has it. No edit makes the application fail, whatever its range:
  there is no bounds check, and \<open>slice\<close> never throws. Every edit turns the working
  buffer into its part before the resolved start, the replacement, and its part from the
  resolved end on, where an offset \<open>x\<close> resolves to \<open>min(x, len)\<close> when \<open>x \<ge> 0\<close> and to
  \<open>max(len + x, 0)\<close> when \<open>x < 0\<close>. So \<open>formatFile\<close> returns a text whenever the file
  can be read and the language service answers, and the worker counts the file as
  checked. An edit that starts at or after the end of the buffer, with a length that is
  not negative, appends its replacement.
\<close>

theorem out_of_bounds_edit_is_clamped:
  assumes "readFileSync (disk s) filePath = Inr text" and "g filePath text = Inr (Some edits)"
  shows "formatFile g (disk s) filePath =
           Inr (foldr (\<lambda>e acc. apply_edit acc e) edits text,
                foldr (\<lambda>e acc. apply_edit acc e) edits text \<noteq> text) \<and>
         (isTextFile (disk s) filePath \<longrightarrow>
            filesChecked (process_file g opts filePath s) = filesChecked s + 1) \<and>
         (\<forall>r e. apply_edit r e =
              take (resolved r (span_start e)) r @ newText e @
              drop (resolved r (span_start e + span_length e)) r) \<and>
         (\<forall>r x. resolved r x \<le> length r \<and>
              (0 \<le> x \<and> x \<le> int (length r) \<longrightarrow> int (resolved r x) = x) \<and>
              (int (length r) \<le> x \<longrightarrow> resolved r x = length r) \<and>
              (x < 0 \<and> - int (length r) \<le> x \<longrightarrow> int (resolved r x) = int (length r) + x) \<and>
              (x < - int (length r) \<longrightarrow> resolved r x = 0)) \<and>
         (\<forall>e. int (length text) \<le> span_start e \<and> 0 \<le> span_length e \<longrightarrow>
              apply_edit text e = text @ newText e)"
proof -
  have ff: "formatFile g (disk s) filePath =
           Inr (foldr (\<lambda>e acc. apply_edit acc e) edits text,
                foldr (\<lambda>e acc. apply_edit acc e) edits text \<noteq> text)"
    using assms by (simp add: formatFile_def format_def format_edits_foldr)
  have counted: "filesChecked (process_file g opts filePath s) = filesChecked s + 1"
    if "isTextFile (disk s) filePath"
    using that ff by (simp add: process_file_def Let_def split: sum.splits)
  have res: "resolved r x \<le> length r \<and>
              (0 \<le> x \<and> x \<le> int (length r) \<longrightarrow> int (resolved r x) = x) \<and>
              (int (length r) \<le> x \<longrightarrow> resolved r x = length r) \<and>
              (x < 0 \<and> - int (length r) \<le> x \<longrightarrow> int (resolved r x) = int (length r) + x) \<and>
              (x < - int (length r) \<longrightarrow> resolved r x = 0)" for r x
    by (auto simp: resolved_def)
  have clamp: "apply_edit text e = text @ newText e"
    if "int (length text) \<le> span_start e \<and> 0 \<le> span_length e" for e
  proof -
    from that have "resolved text (span_start e) = length text"
      and "resolved text (span_start e + span_length e) = length text"
      by (auto simp: resolved_def)
    then show ?thesis by (simp add: apply_edit_resolved)
  qed
  show ?thesis using ff counted apply_edit_resolved res clamp by blast
qed

theorem out_of_bounds_edit_is_clamped_witness:
  "readFileSync [''/r/a.ts'' \<mapsto> \<lparr>bytes = ''ab'', readable = True, writable = True\<rparr>] ''/r/a.ts''
     = Inr ''ab'' \<and>
   filesChecked
     (process_file (\<lambda>fileName text. Inr (Some [\<lparr>span_start = -1, span_length = 9, newText = ''X''\<rparr>]))
        default_options ''/r/a.ts''
        (initial [''/r/a.ts'' \<mapsto> \<lparr>bytes = ''ab'', readable = True, writable = True\<rparr>] [])) = 1 \<and>
   formatFile (\<lambda>fileName text. Inr (Some [\<lparr>span_start = -1, span_length = 9, newText = ''X''\<rparr>]))
     [''/r/a.ts'' \<mapsto> \<lparr>bytes = ''ab'', readable = True, writable = True\<rparr>] ''/r/a.ts''
     = Inr (''aX'', True) \<and>
   apply_edit ''abcdef'' \<lparr>span_start = -5, span_length = 2, newText = ''X''\<rparr> = ''aXdef'' \<and>
   apply_edit ''ab'' \<lparr>span_start = 5, span_length = 1, newText = ''X''\<rparr> = ''abX''"
proof -
  let ?d = "[''/r/a.ts'' \<mapsto> \<lparr>bytes = ''ab'', readable = True, writable = True\<rparr>]"
  let ?e = "\<lparr>span_start = -1, span_length = 9, newText = ''X''\<rparr>"
  let ?g = "\<lambda>fileName text :: string. (Inr (Some [?e]) :: error + TextChange list option)"
  have h1: "readFileSync (disk (initial ?d [])) ''/r/a.ts'' = Inr ''ab''"
    by (simp add: initial_def readFileSync_def)
  have h2: "?g ''/r/a.ts'' ''ab'' = Inr (Some [?e])"
    by simp
  have t: "isTextFile (disk (initial ?d [])) ''/r/a.ts''"
    by (simp add: initial_def isTextFile_def)
  note th = out_of_bounds_edit_is_clamped [OF h1 h2, of default_options]
  from th t have 1: "filesChecked (process_file ?g default_options ''/r/a.ts'' (initial ?d [])) =
      filesChecked (initial ?d []) + 1"
    by blast
  from th have ap: "apply_edit r e =
      take (resolved r (span_start e)) r @ newText e @
      drop (resolved r (span_start e + span_length e)) r" for r e
    by blast
  have 2: "apply_edit ''ab'' ?e = ''aX''"
    by (subst ap) (simp add: resolved_def)
  from th have "formatFile ?g (disk (initial ?d [])) ''/r/a.ts'' =
      Inr (foldr (\<lambda>e acc. apply_edit acc e) [?e] ''ab'',
           foldr (\<lambda>e acc. apply_edit acc e) [?e] ''ab'' \<noteq> ''ab'')"
    by blast
  then have 3: "formatFile ?g ?d ''/r/a.ts'' = Inr (''aX'', True)"
    using 2 by (simp add: initial_def)
  have 4: "apply_edit ''abcdef'' \<lparr>span_start = -5, span_length = 2, newText = ''X''\<rparr> = ''aXdef''"
    by (subst ap) (simp add: resolved_def)
  from th have 5: "apply_edit ''ab'' \<lparr>span_start = 5, span_length = 1, newText = ''X''\<rparr> =
      ''ab'' @ newText \<lparr>span_start = 5, span_length = 1, newText = ''X''\<rparr>"
    by simp
  from 1 3 4 5 h1 show ?thesis
    by (simp add: initial_def)
qed

text \<open>
  Claim C3 as stated fails: an edit with the range \<open>[5, 6)\<close> on a buffer of length 2 is
  applied, and \<open>formatFile\<close> returns the text with the replacement appended.
\<close>

theorem out_of_bounds_edit_counterexample:
  "\<not> in_bounds ''ab'' \<lparr>span_start = 5, span_length = 1, newText = ''X''\<rparr> \<and>
   formatFile (\<lambda>fileName text. Inr (Some [\<lparr>span_start = 5, span_length = 1, newText = ''X''\<rparr>]))
     [''/r/a.ts'' \<mapsto> \<lparr>bytes = ''ab'', readable = True, writable = True\<rparr>] ''/r/a.ts''
     = Inr (''abX'', True)"
  by (simp add: in_bounds_def formatFile_def readFileSync_def format_def format_edits_foldr
      apply_edit_def slice_def slice_from_def)

section \<open>Run modes and determinism\<close>

lemma process_file_readonly_eq:
  assumes "dry o1 \<or> check o1" and "dry o2 \<or> check o2" and "silent o1 = silent o2"
  shows "process_file g o1 = process_file g o2"
proof -
  have w: "(\<not> dry o1 \<and> \<not> check o1) = False" "(\<not> dry o2 \<and> \<not> check o2) = False"
    using assms by blast+
  have l: "(dry o1 \<or> check o1) = True" "(dry o2 \<or> check o2) = True"
    using assms by blast+
  show ?thesis
    by (rule ext, rule ext)
       (simp only: process_file_def w l assms(3) if_True if_False)
qed

lemma disk_fold_absent:
  "p \<notin> set fs \<Longrightarrow> disk (fold (process_file g opts) fs s) p = disk s p"
proof (induction fs arbitrary: s)
  case Nil
  then show ?case by simp
next
  case (Cons f fs)
  then show ?case by (simp add: disk_process_file_other)
qed

lemma disk_process_file_written:
  assumes "\<not> dry opts" "\<not> check opts" "isTextFile (disk s) p"
    and "formatFile g (disk s) p = Inr (t, True)" "disk s p = Some n" "writable n"
  shows "disk (process_file g opts p s) p = Some (n\<lparr>bytes := t\<rparr>)"
  using assms by (simp add: process_file_def Let_def writeFileSync_def)

lemma disk_fold_written:
  assumes "\<not> dry opts" "\<not> check opts" "distinct fs" "p \<in> set fs"
    and "isTextFile (disk s) p" "formatFile g (disk s) p = Inr (t, True)"
    and "disk s p = Some n" "writable n"
  shows "disk (fold (process_file g opts) fs s) p = Some (n\<lparr>bytes := t\<rparr>)"
  using assms
proof (induction fs arbitrary: s)
  case Nil
  then show ?case by simp
next
  case (Cons f fs)
  show ?case
  proof (cases "f = p")
    case True
    with Cons.prems have "p \<notin> set fs" by simp
    then have "disk (fold (process_file g opts) fs (process_file g opts p s)) p =
        disk (process_file g opts p s) p"
      by (rule disk_fold_absent)
    with True Cons.prems show ?thesis
      by (simp add: disk_process_file_written)
  next
    case False
    let ?s' = "process_file g opts f s"
    have same: "disk ?s' p = disk s p"
      using False by (simp add: disk_process_file_other)
    have "isTextFile (disk ?s') p"
      using Cons.prems(5) isTextFile_cong[of "disk ?s'" p "disk s"] same by simp
    moreover have "formatFile g (disk ?s') p = Inr (t, True)"
      using Cons.prems(6) formatFile_cong[of "disk ?s'" p "disk s" g] same by simp
    moreover have "disk ?s' p = Some n"
      using Cons.prems(7) same by simp
    moreover have "distinct fs" "p \<in> set fs"
      using Cons.prems False by auto
    ultimately have "disk (fold (process_file g opts) fs ?s') p = Some (n\<lparr>bytes := t\<rparr>)"
      using Cons.IH[of ?s'] Cons.prems(1,2,8) by blast
    then show ?thesis by simp
  qed
qed

lemma pool_size_mode [simp]:
  "pool_size h (opts\<lparr>dry := a, check := b\<rparr>) = pool_size h opts"
  by (simp add: pool_size_def)

lemma demo_a_changes:
  "isTextFile demo_disk ''/r/a.ts'' \<and>
   formatFile demo_edits demo_disk ''/r/a.ts'' = Inr (''a b'', True)"
  by (simp add: isTextFile_def demo_disk_def formatFile_def readFileSync_def format_def
      demo_edits_def format_edits_foldr apply_edit_def slice_def slice_from_def)

lemma demo_b_unchanged:
  "isTextFile demo_disk ''/r/b.ts'' \<and>
   formatFile demo_edits demo_disk ''/r/b.ts'' = Inr (''c d'', False)"
  by (simp add: isTextFile_def demo_disk_def formatFile_def readFileSync_def format_def
      demo_edits_def format_edits_def)

text \<open>
  Claim C4: for the same files, the same language service and the same other options,
  the apply phase of a dry run and that of a check run end in the same state, so in the
  same \<open>filesChanged\<close> and the same changed paths; a run with \<open>--dry\<close> or \<open>--check\<close>
  leaves every file on disk as it was. Only a run with neither flag writes: there a file
  of the list (the paths of a traversal are distinct) that is found changed and may be
  written holds its formatted text afterwards.
\<close>

theorem dry_run_and_check_agree:
  "apply_phase h (opts\<lparr>dry := True, check := False\<rparr>) files d out =
     apply_phase h (opts\<lparr>dry := False, check := True\<rparr>) files d out \<and>
   filesChanged (apply_phase h (opts\<lparr>dry := True, check := False\<rparr>) files d out) =
     filesChanged (apply_phase h (opts\<lparr>dry := False, check := True\<rparr>) files d out) \<and>
   set (changedFiles (apply_phase h (opts\<lparr>dry := True, check := False\<rparr>) files d out)) =
     set (changedFiles (apply_phase h (opts\<lparr>dry := False, check := True\<rparr>) files d out)) \<and>
   (dry opts \<or> check opts \<longrightarrow> disk (apply_phase h opts files d out) = d) \<and>
   (\<not> dry opts \<and> \<not> check opts \<and> distinct files \<and> filePath \<in> set files \<and>
    isTextFile d filePath \<and> formatFile (getEdits h) d filePath = Inr (t, True) \<and>
    d filePath = Some n \<and> writable n \<longrightarrow>
      disk (apply_phase h opts files d out) filePath = Some (n\<lparr>bytes := t\<rparr>))"
proof -
  have "process_file (getEdits h) (opts\<lparr>dry := True, check := False\<rparr>) =
        process_file (getEdits h) (opts\<lparr>dry := False, check := True\<rparr>)"
    by (rule process_file_readonly_eq) simp_all
  then have eq: "apply_phase h (opts\<lparr>dry := True, check := False\<rparr>) files d out =
     apply_phase h (opts\<lparr>dry := False, check := True\<rparr>) files d out"
    by (simp add: apply_phase_fold)
  have ro: "disk (apply_phase h opts files d out) = d" if "dry opts \<or> check opts"
    using that by (simp add: apply_phase_fold disk_fold_readonly initial_def)
  have wr: "disk (apply_phase h opts files d out) filePath = Some (n\<lparr>bytes := t\<rparr>)"
    if "\<not> dry opts \<and> \<not> check opts \<and> distinct files \<and> filePath \<in> set files \<and>
        isTextFile d filePath \<and> formatFile (getEdits h) d filePath = Inr (t, True) \<and>
        d filePath = Some n \<and> writable n"
  proof -
    have "disk (fold (process_file (getEdits h) opts) files (initial d out)) filePath =
        Some (n\<lparr>bytes := t\<rparr>)"
      using that by (intro disk_fold_written) (simp_all add: initial_def)
    then show ?thesis by (simp add: apply_phase_fold)
  qed
  show ?thesis using eq ro wr by simp
qed

theorem dry_run_and_check_agree_witness:
  "disk (apply_phase demo_host (default_options\<lparr>check := True\<rparr>)
           [''/r/a.ts'', ''/r/b.ts''] demo_disk []) = demo_disk \<and>
   disk (apply_phase demo_host default_options [''/r/a.ts'', ''/r/b.ts''] demo_disk []) ''/r/a.ts'' =
     Some \<lparr>bytes = ''a b'', readable = True, writable = True\<rparr>"
proof -
  let ?files = "[''/r/a.ts'', ''/r/b.ts'']"
  let ?n = "\<lparr>bytes = ''a  b'', readable = True, writable = True\<rparr>"
  have g: "getEdits demo_host = demo_edits"
    by (simp add: demo_host_def)
  have ro: "dry (default_options\<lparr>check := True\<rparr>) \<or> check (default_options\<lparr>check := True\<rparr>)"
    by simp
  have wr: "\<not> dry default_options \<and> \<not> check default_options \<and> distinct ?files \<and>
      ''/r/a.ts'' \<in> set ?files \<and> isTextFile demo_disk ''/r/a.ts'' \<and>
      formatFile (getEdits demo_host) demo_disk ''/r/a.ts'' = Inr (''a b'', True) \<and>
      demo_disk ''/r/a.ts'' = Some ?n \<and> writable ?n"
    using demo_a_changes by (simp add: g default_options_def) (simp add: demo_disk_def)
  from dry_run_and_check_agree
    [of demo_host "default_options\<lparr>check := True\<rparr>" ?files demo_disk "[]"] ro
  have 1: "disk (apply_phase demo_host (default_options\<lparr>check := True\<rparr>) ?files demo_disk []) = demo_disk"
    by blast
  from dry_run_and_check_agree
    [of demo_host default_options ?files demo_disk "[]" "''/r/a.ts''" "''a b''" ?n] wr
  have 2: "disk (apply_phase demo_host default_options ?files demo_disk []) ''/r/a.ts'' =
      Some (?n\<lparr>bytes := ''a b''\<rparr>)"
    by blast
  from 1 2 show ?thesis by simp
qed

text \<open>
  Claim C9: the result of the apply phase does not depend on the concurrency setting.
  Two runs that differ in it only end with the same counters, the same list
  \<open>changedFiles\<close> in the same order, the same files on disk and the same console. The
  order of \<open>changedFiles\<close> is the order of the file list: it is the list of the files
  found changed, in traversal order (for distinct paths, or when nothing is written).
\<close>

theorem result_independent_of_concurrency:
  "filesChecked (apply_phase h (opts\<lparr>concurrency := C1\<rparr>) files d out) =
     filesChecked (apply_phase h (opts\<lparr>concurrency := C2\<rparr>) files d out) \<and>
   filesChanged (apply_phase h (opts\<lparr>concurrency := C1\<rparr>) files d out) =
     filesChanged (apply_phase h (opts\<lparr>concurrency := C2\<rparr>) files d out) \<and>
   changedFiles (apply_phase h (opts\<lparr>concurrency := C1\<rparr>) files d out) =
     changedFiles (apply_phase h (opts\<lparr>concurrency := C2\<rparr>) files d out) \<and>
   disk (apply_phase h (opts\<lparr>concurrency := C1\<rparr>) files d out) =
     disk (apply_phase h (opts\<lparr>concurrency := C2\<rparr>) files d out) \<and>
   console (apply_phase h (opts\<lparr>concurrency := C1\<rparr>) files d out) =
     console (apply_phase h (opts\<lparr>concurrency := C2\<rparr>) files d out) \<and>
   subseq (changedFiles (apply_phase h (opts\<lparr>concurrency := C1\<rparr>) files d out)) files \<and>
   (distinct files \<or> dry opts \<or> check opts \<longrightarrow>
      changedFiles (apply_phase h (opts\<lparr>concurrency := C1\<rparr>) files d out) =
        filter (would_change (getEdits h) d) files \<and>
      filesChanged (apply_phase h (opts\<lparr>concurrency := C1\<rparr>) files d out) =
        length (filter (would_change (getEdits h) d) files))"
proof -
  let ?F = "fold (process_file (getEdits h) opts) files (initial d out)"
  have fields: "filesChecked (apply_phase h (opts\<lparr>concurrency := C\<rparr>) files d out) = filesChecked ?F"
    "filesChanged (apply_phase h (opts\<lparr>concurrency := C\<rparr>) files d out) = filesChanged ?F"
    "changedFiles (apply_phase h (opts\<lparr>concurrency := C\<rparr>) files d out) = changedFiles ?F"
    "disk (apply_phase h (opts\<lparr>concurrency := C\<rparr>) files d out) = disk ?F"
    "console (apply_phase h (opts\<lparr>concurrency := C\<rparr>) files d out) = console ?F" for C
    by (simp_all add: apply_phase_fold)
  have sub: "subseq (changedFiles ?F) files"
    using subseq_changedFiles_fold[of "getEdits h" opts files "initial d out"]
    by (auto simp: initial_def)
  have order: "changedFiles ?F = filter (would_change (getEdits h) d) files \<and>
      filesChanged ?F = length (filter (would_change (getEdits h) d) files)"
    if "distinct files \<or> dry opts \<or> check opts"
  proof -
    have c: "changedFiles ?F = filter (would_change (getEdits h) d) files"
      using changedFiles_fold[where g = "getEdits h" and s = "initial d out", OF that]
      by (simp add: initial_def)
    moreover have "filesChanged ?F = length (changedFiles ?F)"
      using filesChanged_fold[of "getEdits h" opts files "initial d out"]
      by (simp add: initial_def)
    ultimately show ?thesis by simp
  qed
  show ?thesis using sub order by (simp add: fields)
qed

theorem result_independent_of_concurrency_witness:
  "changedFiles (apply_phase demo_host (default_options\<lparr>concurrency := 1\<rparr>)
      [''/r/a.ts'', ''/r/b.ts''] demo_disk []) = [''/r/a.ts''] \<and>
   changedFiles (apply_phase demo_host (default_options\<lparr>concurrency := 8\<rparr>)
      [''/r/a.ts'', ''/r/b.ts''] demo_disk []) = [''/r/a.ts''] \<and>
   filesChanged (apply_phase demo_host (default_options\<lparr>concurrency := 8\<rparr>)
      [''/r/a.ts'', ''/r/b.ts''] demo_disk []) = 1"
proof -
  let ?files = "[''/r/a.ts'', ''/r/b.ts'']"
  have g: "getEdits demo_host = demo_edits"
    by (simp add: demo_host_def)
  have d: "distinct ?files \<or> dry default_options \<or> check default_options"
    by simp
  have f: "filter (would_change (getEdits demo_host) demo_disk) ?files = [''/r/a.ts'']"
    using demo_a_changes demo_b_unchanged by (simp add: g would_change_def)
  note th = result_independent_of_concurrency
    [where h = demo_host and opts = default_options and ?C1.0 = 1 and ?C2.0 = 8
       and files = ?files and d = demo_disk and out = "[]"]
  from th d have "changedFiles (apply_phase demo_host (default_options\<lparr>concurrency := 1\<rparr>)
      ?files demo_disk []) = filter (would_change (getEdits demo_host) demo_disk) ?files"
    by blast
  moreover from th have "changedFiles (apply_phase demo_host (default_options\<lparr>concurrency := 8\<rparr>)
      ?files demo_disk []) = changedFiles (apply_phase demo_host (default_options\<lparr>concurrency := 1\<rparr>)
      ?files demo_disk [])"
    by simp
  moreover from th d have "filesChanged (apply_phase demo_host (default_options\<lparr>concurrency := 8\<rparr>)
      ?files demo_disk []) = filesChanged (apply_phase demo_host (default_options\<lparr>concurrency := 1\<rparr>)
      ?files demo_disk [])"
    by simp
  moreover from th d have "filesChanged (apply_phase demo_host (default_options\<lparr>concurrency := 1\<rparr>)
      ?files demo_disk []) = length (filter (would_change (getEdits demo_host) demo_disk) ?files)"
    by blast
  ultimately show ?thesis unfolding f by simp
qed

section \<open>Every file is taken and processed once\<close>

lemma gets_checked_cong: "d p = d' p \<Longrightarrow> gets_checked g d p = gets_checked g d' p"
  by (simp add: gets_checked_def isTextFile_cong[of d p d'] formatFile_cong[of d p d'])

lemma filesChecked_process_file:
  "filesChecked (process_file g opts f s) =
   filesChecked s + (if gets_checked g (disk s) f then 1 else 0)"
  by (auto simp: process_file_def gets_checked_def Let_def split: sum.splits prod.splits)

lemma filesChecked_fold:
  "distinct fs \<or> dry opts \<or> check opts \<Longrightarrow>
   filesChecked (fold (process_file g opts) fs s) =
   filesChecked s + length (filter (gets_checked g (disk s)) fs)"
proof (induction fs arbitrary: s)
  case Nil
  then show ?case by simp
next
  case (Cons f fs)
  let ?s' = "process_file g opts f s"
  have "\<forall>p\<in>set fs. gets_checked g (disk ?s') p = gets_checked g (disk s) p"
  proof
    fix p assume p: "p \<in> set fs"
    show "gets_checked g (disk ?s') p = gets_checked g (disk s) p"
    proof (cases "dry opts \<or> check opts")
      case True
      then show ?thesis by (simp add: disk_process_file_readonly)
    next
      case False
      with Cons.prems p have "p \<noteq> f" by auto
      then show ?thesis
        by (intro gets_checked_cong disk_process_file_other)
    qed
  qed
  then have "filter (gets_checked g (disk ?s')) fs = filter (gets_checked g (disk s)) fs"
    by (simp cong: filter_cong)
  moreover have "distinct fs \<or> dry opts \<or> check opts"
    using Cons.prems by auto
  ultimately show ?case
    using Cons.IH[of ?s'] by (simp add: filesChecked_process_file)
qed

text \<open>
  Claim C7: whatever the number of workers, every index of the file list is claimed
  exactly once and no other index is processed. A turn of the loop that claims an index
  below \<open>files.length\<close> processes the file at that index, and a worker that finds the
  cursor at or past the end only advances it and returns. The first worker takes all
  the indices in increasing order, since its loop never yields; so the apply phase ends
  in the state that processing the files of the list one after another, each once,
  leaves, and \<open>filesChecked\<close> is the number of files of the list that pass the probe and
  are formatted without a throw (for distinct paths, or when nothing is written): all of
  them when every file is such a file.
\<close>

theorem every_index_claimed_once:
  "claimed (apply_phase h opts files d out) = map (Pair 0) [0..<length files] \<and>
   map snd (claimed (apply_phase h opts files d out)) = [0..<length files] \<and>
   (\<forall>i<length files.
      length (filter (\<lambda>c. snd c = i) (claimed (apply_phase h opts files d out))) = 1) \<and>
   (\<forall>c\<in>set (claimed (apply_phase h opts files d out)). snd c < length files) \<and>
   (\<forall>k s. index s < length files \<longrightarrow>
      worker (getEdits h) opts files k s =
      worker (getEdits h) opts files k
        (process_file (getEdits h) opts (files ! index s)
           (s\<lparr>index := index s + 1, claimed := claimed s @ [(k, index s)]\<rparr>))) \<and>
   (\<forall>k s. length files \<le> index s \<longrightarrow>
      worker (getEdits h) opts files k s = s\<lparr>index := index s + 1\<rparr>) \<and>
   apply_phase h opts files d out =
     (fold (process_file (getEdits h) opts) files (initial d out))
       \<lparr>index := length files + pool_size h opts,
        claimed := map (Pair 0) [0..<length files]\<rparr> \<and>
   (distinct files \<or> dry opts \<or> check opts \<longrightarrow>
      filesChecked (apply_phase h opts files d out) =
        length (filter (gets_checked (getEdits h) d) files)) \<and>
   (distinct files \<or> dry opts \<or> check opts \<longrightarrow>
    (\<forall>f\<in>set files. gets_checked (getEdits h) d f) \<longrightarrow>
      filesChecked (apply_phase h opts files d out) = length files)"
proof -
  let ?c = "claimed (apply_phase h opts files d out)"
  have c: "?c = map (Pair 0) [0..<length files]"
    by (simp add: apply_phase_fold)
  have m: "map snd ?c = [0..<length files]"
    unfolding c by (simp add: comp_def)
  have once: "length (filter (\<lambda>c. snd c = i) ?c) = 1" if "i < length files" for i
  proof -
    have "filter (\<lambda>c. snd c = i) ?c = map (Pair 0) (filter (\<lambda>j. j = i) [0..<length files])"
      unfolding c by (simp add: filter_map comp_def)
    then show ?thesis
      using that by (simp add: filter_upt_eq)
  qed
  have bound: "\<forall>c\<in>set ?c. snd c < length files"
    unfolding c by auto
  have step: "worker (getEdits h) opts files k s =
      worker (getEdits h) opts files k
        (process_file (getEdits h) opts (files ! index s)
           (s\<lparr>index := index s + 1, claimed := claimed s @ [(k, index s)]\<rparr>))"
    if "index s < length files" for k s
    using that by (rule worker_step)
  have stop: "worker (getEdits h) opts files k s = s\<lparr>index := index s + 1\<rparr>"
    if "length files \<le> index s" for k s
    using that by (rule worker_past_end)
  have count: "filesChecked (apply_phase h opts files d out) =
        length (filter (gets_checked (getEdits h) d) files)"
    if "distinct files \<or> dry opts \<or> check opts"
    using filesChecked_fold[OF that, where g = "getEdits h" and s = "initial d out"]
    by (simp add: apply_phase_fold) (simp add: initial_def)
  have all: "filesChecked (apply_phase h opts files d out) = length files"
    if "distinct files \<or> dry opts \<or> check opts" "\<forall>f\<in>set files. gets_checked (getEdits h) d f"
  proof -
    from that(2) have "filter (gets_checked (getEdits h) d) files = files"
      by (simp add: filter_id_conv)
    with count[OF that(1)] show ?thesis by simp
  qed
  show ?thesis
    using c m once bound step stop apply_phase_fold[of h opts files d out] count all by blast
qed

theorem every_index_claimed_once_witness:
  "claimed (apply_phase demo_host (default_options\<lparr>concurrency := 2\<rparr>)
      [''/r/a.ts'', ''/r/b.ts''] demo_disk []) = [(0, 0), (0, 1)] \<and>
   length (filter (\<lambda>c. snd c = 1)
     (claimed (apply_phase demo_host (default_options\<lparr>concurrency := 2\<rparr>)
        [''/r/a.ts'', ''/r/b.ts''] demo_disk []))) = 1 \<and>
   filesChecked (apply_phase demo_host (default_options\<lparr>concurrency := 2\<rparr>)
      [''/r/a.ts'', ''/r/b.ts''] demo_disk []) = 2 \<and>
   worker demo_edits default_options [''/r/a.ts''] 3 ((initial demo_disk [])\<lparr>index := 1\<rparr>) =
     (initial demo_disk [])\<lparr>index := 2\<rparr>"
proof -
  let ?o = "default_options\<lparr>concurrency := 2\<rparr>"
  let ?files = "[''/r/a.ts'', ''/r/b.ts'']"
  let ?c = "claimed (apply_phase demo_host ?o ?files demo_disk [])"
  have g: "getEdits demo_host = demo_edits"
    by (simp add: demo_host_def)
  note th = every_index_claimed_once [of demo_host ?o ?files demo_disk "[]"]
  from th have c: "?c = map (Pair 0) [0..<length ?files]"
    and o: "\<forall>i<length ?files. length (filter (\<lambda>c. snd c = i) ?c) = 1"
    by blast+
  have 1: "?c = [(0, 0), (0, 1)]"
    unfolding c by (simp add: upt_rec)
  from o have 2: "length (filter (\<lambda>c. snd c = 1) ?c) = 1"
    by simp
  have d: "distinct ?files \<or> dry ?o \<or> check ?o"
    by simp
  have a: "\<forall>f\<in>set ?files. gets_checked (getEdits demo_host) demo_disk f"
    using demo_a_changes demo_b_unchanged by (simp add: g gets_checked_def)
  from th d a have "filesChecked (apply_phase demo_host ?o ?files demo_disk []) = length ?files"
    by blast
  then have 3: "filesChecked (apply_phase demo_host ?o ?files demo_disk []) = 2"
    by simp
  have p: "length [''/r/a.ts''] \<le> index ((initial demo_disk [])\<lparr>index := 1\<rparr>)"
    by simp
  from every_index_claimed_once [of demo_host default_options "[''/r/a.ts'']" demo_disk "[]"] p
  have "worker (getEdits demo_host) default_options [''/r/a.ts''] 3 ((initial demo_disk [])\<lparr>index := 1\<rparr>) =
      ((initial demo_disk [])\<lparr>index := 1\<rparr>)
        \<lparr>index := index ((initial demo_disk [])\<lparr>index := 1\<rparr>) + 1\<rparr>"
    by blast
  then have 4: "worker demo_edits default_options [''/r/a.ts''] 3 ((initial demo_disk [])\<lparr>index := 1\<rparr>) =
     (initial demo_disk [])\<lparr>index := 2\<rparr>"
    by (simp add: g)
  from 1 2 3 4 show ?thesis by blast
qed

section \<open>Exit status\<close>

lemma usage_exit_early [simp]: "usage_exit w (early w (Some 2) out)"
  by (simp add: usage_exit_def early_def exit_status_def)

lemma summary_early [simp]: "summary (early w code out) = None"
  by (simp add: early_def)















lemma not_dash_not_option:
  "take 1 arg \<noteq> ''-'' \<Longrightarrow>
   arg \<notin> set [''-h'', ''--help'', ''--dir'', ''--include'', ''--exclude'', ''--concurrency'',
                ''--dry'', ''--check'', ''--silent'']"
  by (cases arg) auto




















section \<open>Exclude patterns and files\<close>

lemma visit_file_ignores_excludes:
  "visit inc excs rootDir d (File n) files = visit inc [] rootDir d (File n) files"
  by (simp add: Let_def)

text \<open>
  Claim C2 does not hold of \<open>walk\<close>: an entry that an exclude pattern matches is skipped
  only when it is a directory. With the default include glob and the exclude pattern
  \<open>b.ts\<close>, the files \<open>b.ts\<close> and \<open>src/b.ts\<close> match the exclude pattern and are both in
  the list that \<open>collectFiles\<close> returns.
\<close>

theorem excluded_file_still_collected:
  "demo_minimatch ''b.ts'' True ''b.ts'' \<and>
   demo_minimatch ''b.ts'' True ''src/b.ts'' \<and>
   collectFiles demo_minimatch ''/r'' ''**/*.{ts,tsx,js}'' [''b.ts'']
     (Some [File ''a.ts'', File ''b.ts'', Directory ''src'' (Some [File ''b.ts''])]) =
   [''/r/a.ts'', ''/r/b.ts'', ''/r/src/b.ts'']"
  by code_simp

end
